theory Spec2Isabelle
  imports Complex_Main
begin

section \<open>Python strings\<close>

text \<open>
  A Python \<^verbatim>\<open>str\<close> is a sequence of Unicode code points, and the regular
  expressions of \<^verbatim>\<open>src/graph.py\<close> test code-point ranges. A string is therefore
  a list of code points (natural numbers); \<open>ascii\<close> embeds an ASCII literal.
\<close>

type_synonym ustr = "nat list"

definition ascii :: "string \<Rightarrow> ustr" where
  "ascii s = map of_char s"

text \<open>
  \<^verbatim>\<open>str.isspace\<close> on one character: the code points CPython classifies as
  whitespace (bidirectional type WS, B or S, or category Zs).
\<close>

definition isspace :: "nat \<Rightarrow> bool" where
  "isspace c \<longleftrightarrow>
     (9 \<le> c \<and> c \<le> 13) \<or> (28 \<le> c \<and> c \<le> 32) \<or> c = 133 \<or> c = 160 \<or> c = 5760 \<or>
     (8192 \<le> c \<and> c \<le> 8202) \<or> c = 8232 \<or> c = 8233 \<or> c = 8239 \<or> c = 8287 \<or> c = 12288"

text \<open>\<^verbatim>\<open>s.strip()\<close>: leading and trailing whitespace removed.\<close>

definition strip :: "ustr \<Rightarrow> ustr" where
  "strip s = rev (dropWhile isspace (rev (dropWhile isspace s)))"

text \<open>
  The line boundaries of \<^verbatim>\<open>str.splitlines\<close>: LF, VT, FF, CR, FS, GS, RS, NEL,
  LINE SEPARATOR and PARAGRAPH SEPARATOR; CR LF is one boundary.
\<close>

definition is_linebreak :: "nat \<Rightarrow> bool" where
  "is_linebreak c \<longleftrightarrow>
     (10 \<le> c \<and> c \<le> 13) \<or> (28 \<le> c \<and> c \<le> 30) \<or> c = 133 \<or> c = 8232 \<or> c = 8233"

text \<open>
  \<^verbatim>\<open>text.splitlines()\<close>, scanning left to right with the current line in
  \<open>cur\<close>. A boundary closes the current line (also an empty one); at the end of the
  text a non-empty current line is closed, so no empty last line is produced.
\<close>

fun splitlines_from :: "ustr \<Rightarrow> ustr \<Rightarrow> ustr list" where
  "splitlines_from cur [] = (if cur = [] then [] else [cur])"
| "splitlines_from cur [c] =
     (if is_linebreak c then [cur] else [cur @ [c]])"
| "splitlines_from cur (c # d # ds) =
     (if c = 13 \<and> d = 10 then cur # splitlines_from [] ds
      else if is_linebreak c then cur # splitlines_from [] (d # ds)
      else splitlines_from (cur @ [c]) (d # ds))"

definition splitlines :: "ustr \<Rightarrow> ustr list" where
  "splitlines s = splitlines_from [] s"

text \<open>\<^verbatim>\<open>sep.join(xs)\<close>.\<close>

fun join :: "ustr \<Rightarrow> ustr list \<Rightarrow> ustr" where
  "join sep [] = []"
| "join sep [x] = x"
| "join sep (x # y # ys) = x @ sep @ join sep (y # ys)"

section \<open>The reply filter: \<^verbatim>\<open>_keep_korean_lines\<close>\<close>

text \<open>
  \<^verbatim>\<open>re.sub(r"<think>.*?</think>", "", text, flags=re.DOTALL)\<close>. The scan goes left
  to right; at an opening tag the lazy \<^verbatim>\<open>.*?\<close> stops at the first closing tag after
  it, the whole match is deleted and the scan resumes behind it. Where no closing tag
  follows, the character is kept.
\<close>

definition think_open :: ustr where
  "think_open = ascii ''<think>''"

definition think_close :: ustr where
  "think_close = ascii ''</think>''"

fun after_close :: "ustr \<Rightarrow> ustr option" where
  "after_close [] = None"
| "after_close (c # cs) =
     (if take 8 (c # cs) = think_close then Some (drop 8 (c # cs)) else after_close cs)"

lemma after_close_length: "after_close s = Some r \<Longrightarrow> length r < length s"
  by (induction s) (auto split: if_splits)

function remove_think :: "ustr \<Rightarrow> ustr" where
  "remove_think [] = []"
| "remove_think (c # cs) =
     (if take 7 (c # cs) = think_open then
        (case after_close (drop 7 (c # cs)) of
           Some rest \<Rightarrow> remove_think rest
         | None \<Rightarrow> c # remove_think cs)
      else c # remove_think cs)"
  by pat_completeness auto
termination
proof (relation "measure length")
  fix c cs rest
  assume "after_close (drop 7 (c # cs)) = Some rest"
  then have "length rest < length (drop 7 (c # cs))"
    by (rule after_close_length)
  then show "(rest, c # cs) \<in> measure length"
    by simp
qed auto

text \<open>The character class of the Hangul syllables, U+AC00 to U+D7A3.\<close>

definition is_hangul :: "nat \<Rightarrow> bool" where
  "is_hangul c \<longleftrightarrow> 44032 \<le> c \<and> c \<le> 55203"

text \<open>\<^verbatim>\<open>re.search\<close> for one character of that class, as a truth value.\<close>

definition search_hangul :: "ustr \<Rightarrow> bool" where
  "search_hangul s = list_ex is_hangul s"

text \<open>\<^verbatim>\<open>len(re.findall(...))\<close> for that class: the number of Hangul syllables.\<close>

definition korean_count :: "ustr \<Rightarrow> nat" where
  "korean_count s = length (filter is_hangul s)"

text \<open>\<^verbatim>\<open>len(s.replace(" ", ""))\<close>: only U+0020 is removed.\<close>

definition total_count :: "ustr \<Rightarrow> nat" where
  "total_count s = length (filter (\<lambda>c. c \<noteq> 32) s)"

text \<open>
  \<^verbatim>\<open>korean_ratio = korean_count / total_count\<close>, evaluated only where
  \<open>total_count > 0\<close>. Python divides the two integers with correct rounding to a double
  and compares with the double nearest to \<open>0.2\<close>; for every line of fewer than
  \<open>10^15\<close> characters that comparison agrees with the exact one, which is what the
  model computes, in the rationals.
\<close>

definition korean_ratio :: "ustr \<Rightarrow> rat" where
  "korean_ratio s = of_nat (korean_count s) / of_nat (total_count s)"

text \<open>
  The loop over \<open>lines\<close>, with \<open>kept_lines\<close> as accumulator. Each
  \<^verbatim>\<open>continue\<close> of the source is a recursive call that leaves the accumulator alone.
\<close>

fun keep_loop :: "ustr list \<Rightarrow> ustr list \<Rightarrow> ustr list" where
  "keep_loop [] kept_lines = kept_lines"
| "keep_loop (line # lines) kept_lines =
     (let stripped = strip line in
      if stripped = [] then keep_loop lines kept_lines
      else if \<not> search_hangul stripped then keep_loop lines kept_lines
      else if total_count stripped > 0 \<and>
              (total_count stripped > 10 \<and> korean_ratio stripped < 2 / 10)
           then keep_loop lines kept_lines
      else keep_loop lines (kept_lines @ [stripped]))"

text \<open>
  The function itself. \<open>lines\<close> is taken from the argument before the tag
  removal rebinds \<open>text\<close>, so the loop runs over the lines of the original text and
  the removal only shows in the value returned when nothing was kept.
\<close>

definition keep_korean_lines :: "ustr \<Rightarrow> ustr" where
  "keep_korean_lines text =
     (let lines = splitlines text;
          text' = remove_think text;
          result = strip (join [10] (keep_loop lines []))
      in if result = [] then text' else result)"

section \<open>Paths, exceptions and decoded JSON\<close>

text \<open>
  \<^verbatim>\<open>os.path.join\<close>, \<^verbatim>\<open>os.path.basename\<close> and \<^verbatim>\<open>os.path.dirname\<close> on a
  POSIX system; 47 is the slash.
\<close>

definition path_join :: "ustr \<Rightarrow> ustr \<Rightarrow> ustr" where
  "path_join a b =
     (if b \<noteq> [] \<and> hd b = 47 then b
      else if a = [] \<or> last a = 47 then a @ b
      else a @ [47] @ b)"

definition basename :: "ustr \<Rightarrow> ustr" where
  "basename p = rev (takeWhile (\<lambda>c. c \<noteq> 47) (rev p))"

definition dirname :: "ustr \<Rightarrow> ustr" where
  "dirname p =
     (let head = rev (dropWhile (\<lambda>c. c \<noteq> 47) (rev p))
      in if head \<noteq> [] \<and> \<not> list_all (\<lambda>c. c = 47) head
         then rev (dropWhile (\<lambda>c. c = 47) (rev head))
         else head)"

text \<open>
  \<^verbatim>\<open>str.lower\<close>. Only the ASCII letters are mapped: the one use is on
  \<open>file_type\<close>, which the classification node has set to one of three ASCII words.
\<close>

definition lower :: "ustr \<Rightarrow> ustr" where
  "lower s = map (\<lambda>c. if 65 \<le> c \<and> c \<le> 90 then c + 32 else c) s"

text \<open>
  A Python exception (an instance of \<^verbatim>\<open>Exception\<close>), with the text that
  \<^verbatim>\<open>f"{e}"\<close> prints.
\<close>

datatype exn = Exn ustr

fun exn_text :: "exn \<Rightarrow> ustr" where
  "exn_text (Exn m) = m"

text \<open>
  What \<^verbatim>\<open>resp.json()\<close> returns: any decoded JSON value. An object is the list of
  its items; \<open>JNum\<close> stands for a number by an integer, enough for its truth value.
\<close>

datatype json =
    JNull
  | JBool bool
  | JNum int
  | JStr ustr
  | JArr "json list"
  | JObj "(ustr \<times> json) list"

text \<open>The truth value Python gives a decoded value (in \<^verbatim>\<open>x or ""\<close>).\<close>

fun truthy :: "json \<Rightarrow> bool" where
  "truthy JNull = False"
| "truthy (JBool b) = b"
| "truthy (JNum n) = (n \<noteq> 0)"
| "truthy (JStr s) = (s \<noteq> [])"
| "truthy (JArr xs) = (xs \<noteq> [])"
| "truthy (JObj kvs) = (kvs \<noteq> [])"

fun type_name :: "json \<Rightarrow> ustr" where
  "type_name JNull = ascii ''NoneType''"
| "type_name (JBool b) = ascii ''bool''"
| "type_name (JNum n) = ascii ''int''"
| "type_name (JStr s) = ascii ''str''"
| "type_name (JArr xs) = ascii ''list''"
| "type_name (JObj kvs) = ascii ''dict''"

text \<open>The \<^verbatim>\<open>AttributeError\<close> of a method call on a value whose type lacks it.\<close>

definition attribute_error :: "json \<Rightarrow> ustr \<Rightarrow> exn" where
  "attribute_error v attr =
     Exn ([39] @ type_name v @ [39] @ ascii '' object has no attribute '' @ [39] @ attr @ [39])"

text \<open>\<^verbatim>\<open>data.get(key, default)\<close>: only a dict has the method.\<close>

definition dict_get :: "json \<Rightarrow> ustr \<Rightarrow> json \<Rightarrow> exn + json" where
  "dict_get data key dflt =
     (case data of
        JObj kvs \<Rightarrow> Inr (case map_of kvs key of Some v \<Rightarrow> v | None \<Rightarrow> dflt)
      | _ \<Rightarrow> Inl (attribute_error data (ascii ''get'')))"

text \<open>\<^verbatim>\<open>(v or "").strip()\<close>: only a string has the method.\<close>

definition or_empty_strip :: "json \<Rightarrow> exn + ustr" where
  "or_empty_strip v =
     (case (if truthy v then v else JStr []) of
        JStr s \<Rightarrow> Inr (strip s)
      | u \<Rightarrow> Inl (attribute_error u (ascii ''strip'')))"

section \<open>The outside world\<close>

text \<open>
  The environment of one invocation: the module constant \<open>COLAB_API_BASE\<close>, the
  working directory, the SMTP variables, and the outcome of every call to an external
  collaborator (the two remote endpoints, directory creation, the document renderers,
  file reading and the SMTP session), each either a value or the exception raised.
  \<open>post_route_action\<close> and \<open>post_agent_chat\<close> cover \<^verbatim>\<open>requests.post\<close>,
  \<^verbatim>\<open>raise_for_status\<close> and \<^verbatim>\<open>resp.json()\<close>; \<open>render_pdf\<close> and
  \<open>render_docx\<close> cover the rendering of the text and the writing of the file.
\<close>

record mail =
  mail_from :: ustr
  mail_to :: ustr
  mail_subject :: ustr
  mail_body :: ustr
  mail_filename :: ustr
  mail_bytes :: "nat list"

record env =
  COLAB_API_BASE :: ustr
  cwd :: ustr
  SMTP_USER :: "ustr option"
  SMTP_PASSWORD :: "ustr option"
  post_route_action :: "ustr \<Rightarrow> ustr \<Rightarrow> exn + json"
  post_agent_chat :: "ustr \<Rightarrow> exn + json"
  makedirs_error :: "ustr \<Rightarrow> exn option"
  render_pdf :: "ustr \<Rightarrow> ustr \<Rightarrow> exn + nat list"
  render_docx :: "ustr \<Rightarrow> ustr \<Rightarrow> exn + nat list"
  read_error :: "ustr \<Rightarrow> exn option"
  smtp_error :: "mail \<Rightarrow> exn option"

text \<open>
  The state the code acts on: the directories and files it has created, the messages
  the SMTP session has accepted, and the calls made to the collaborators, in order.
\<close>

datatype call =
    RouteAction ustr ustr
  | AgentChat ustr
  | Makedirs ustr
  | WritePdf ustr
  | WriteDocx ustr
  | ReadFile ustr
  | SendEmail ustr

record world =
  dirs :: "ustr set"
  files :: "ustr \<rightharpoonup> nat list"
  outbox :: "mail list"
  calls :: "call list"

definition log_call :: "call \<Rightarrow> world \<Rightarrow> world" where
  "log_call c w = w\<lparr>calls := calls w @ [c]\<rparr>"

text \<open>\<^verbatim>\<open>os.makedirs(path, exist_ok=True)\<close>.\<close>

definition makedirs :: "env \<Rightarrow> world \<Rightarrow> ustr \<Rightarrow> (exn + unit) \<times> world" where
  "makedirs e w path =
     (let w1 = log_call (Makedirs path) w
      in case makedirs_error e path of
           Some x \<Rightarrow> (Inl x, w1)
         | None \<Rightarrow> (Inr (), w1\<lparr>dirs := insert path (dirs w1)\<rparr>))"

text \<open>\<^verbatim>\<open>open(path, "rb").read()\<close>.\<close>

definition read_file :: "env \<Rightarrow> world \<Rightarrow> ustr \<Rightarrow> (exn + nat list) \<times> world" where
  "read_file e w path =
     (let w1 = log_call (ReadFile path) w
      in case read_error e path of
           Some x \<Rightarrow> (Inl x, w1)
         | None \<Rightarrow>
             (case files w1 path of
                None \<Rightarrow>
                  (Inl (Exn (ascii ''[Errno 2] No such file or directory: '' @ [39] @ path @ [39])),
                   w1)
              | Some b \<Rightarrow> (Inr b, w1)))"

section \<open>The literals of \<^verbatim>\<open>src/graph.py\<close>\<close>

text \<open>
  The Korean messages and prompt fragments of the source, as code points. In the order
  of the definitions: the prefix of the classification error, the notice that no summary
  exists yet, the notice of a server configuration problem, the prefix of the reply
  error, the request to try again, the note that a file was created, the warning that no
  address was recognised and nothing was sent, the two parts of the note that the file
  was sent, the prefix of the warning that sending failed, the subject and the body of
  the mail, the error of missing SMTP variables, the two section headers of the prompt
  and the placeholder for a summary not yet generated.
\<close>

definition msg_classify_error :: ustr where
  "msg_classify_error = [50836, 52397, 32, 48516, 49437, 32, 51473, 32, 50724, 47448, 44032, 32,
     48156, 49373, 54664, 49845, 45768, 45796, 58, 32]"

definition msg_no_summary :: ustr where
  "msg_no_summary = [50500, 51649, 32, 49373, 49457, 46108, 32, 66, 72, 67, 47, 68, 73, 32, 52636,
     47141, 47932, 51060, 32, 50630, 49845, 45768, 45796, 46, 10, 50812, 51901, 32, 54056, 45328,
     50640, 49436, 32, 47676, 51200, 32, 53748, 50896, 32, 50836, 50557, 51012, 32, 49373, 49457,
     54616, 49888, 32, 54980, 32, 45796, 49884, 32, 50836, 52397, 54644, 32, 51452, 49464, 50836,
     46]"

definition msg_server_config :: ustr where
  "msg_server_config = [49436, 48260, 32, 49444, 51221, 40, 67, 79, 76, 65, 66, 95, 65, 80, 73, 95,
     66, 65, 83, 69, 41, 50640, 32, 47928, 51228, 44032, 32, 51080, 50612, 49436, 32, 45813, 48320,
     51012, 32, 49373, 49457, 54624, 32, 49688, 32, 50630, 49845, 45768, 45796, 46, 32, 44288,
     47532, 51088, 50640, 44172, 32, 47928, 51032, 54644, 32, 51452, 49464, 50836, 46]"

definition msg_reply_error :: ustr where
  "msg_reply_error = [45813, 48320, 32, 49373, 49457, 32, 51473, 32, 50724, 47448, 44032, 32,
     48156, 49373, 54664, 49845, 45768, 45796, 58, 32]"

definition msg_try_again :: ustr where
  "msg_try_again = [45813, 48320, 32, 49373, 49457, 50640, 32, 47928, 51228, 44032, 32, 48156,
     49373, 54664, 49845, 45768, 45796, 46, 32, 45796, 49884, 32, 54620, 32, 48264, 32, 49884,
     46020, 54644, 32, 51452, 49464, 50836, 46]"

definition note_file_created :: ustr where
  "note_file_created = [10, 10, 40, 9989, 32, 54028, 51068, 51060, 32, 49373, 49457, 46104, 50632,
     49845, 45768, 45796, 58, 32]"

definition warn_no_address :: ustr where
  "warn_no_address = [10, 10, 40, 9888, 65039, 32, 51060, 47700, 51068, 32, 51452, 49548, 47484,
     32, 51064, 49885, 54616, 51648, 32, 47803, 54644, 32, 49892, 51228, 32, 51204, 49569, 51008,
     32, 54616, 51648, 32, 47803, 54664, 49845, 45768, 45796, 46, 41]"

definition note_sent_to :: ustr where
  "note_sent_to = [10, 10, 40, 128231, 32]"

definition note_sent_end :: ustr where
  "note_sent_end = [32, 51452, 49548, 47196, 32, 54028, 51068, 51012, 32, 51204, 49569, 54664,
     49845, 45768, 45796, 46, 41]"

definition warn_send_error :: ustr where
  "warn_send_error = [10, 10, 40, 9888, 65039, 32, 51060, 47700, 51068, 32, 51204, 49569, 32,
     51473, 32, 50724, 47448, 44032, 32, 48156, 49373, 54664, 49845, 45768, 45796, 58, 32]"

definition subject_text :: ustr where
  "subject_text = [53748, 50896, 32, 50836, 50557, 32, 48143, 32, 51648, 52840, 49436]"

definition body_text :: ustr where
  "body_text = [52392, 48512, 46108, 32, 53748, 50896, 32, 50836, 50557, 47, 51648, 52840, 49436,
     47484, 32, 54869, 51064, 54644, 32, 51452, 49464, 50836, 46]"

definition msg_smtp_env :: ustr where
  "msg_smtp_env = ascii ''SMTP_USER / SMTP_PASSWORD '' @ [54872, 44221, 48320, 49688, 44032, 32,
     49444, 51221, 46104, 50612, 32, 51080, 51648, 32, 50506, 49845, 45768, 45796, 46]"

definition header_user_input :: ustr where
  "header_user_input = [91, 49324, 50857, 51088, 32, 51077, 47141, 93]"

definition header_summary :: ustr where
  "header_summary = [91, 54620, 44397, 50612, 32, 66, 72, 67, 47, 68, 73, 32, 50836, 50557, 93]"

definition not_generated_yet :: ustr where
  "not_generated_yet = [40, 50500, 51649, 32, 49373, 49457, 46104, 51648, 32, 50506, 50520, 51020,
     41]"

text \<open>The words of the closed sets, and the file names.\<close>

definition none_s :: ustr where "none_s = ascii ''none''"
definition save_file_s :: ustr where "save_file_s = ascii ''save_file''"
definition send_email_s :: ustr where "send_email_s = ascii ''send_email''"
definition pdf_s :: ustr where "pdf_s = ascii ''pdf''"
definition docx_s :: ustr where "docx_s = ascii ''docx''"

section \<open>The classifier: \<^verbatim>\<open>_call_route_action\<close>\<close>

text \<open>The dictionary \<^verbatim>\<open>_call_route_action\<close> returns.\<close>

record plan =
  plan_action :: ustr
  plan_file_type :: ustr
  plan_email :: ustr

fun str_of :: "json \<Rightarrow> ustr" where
  "str_of (JStr s) = s"
| "str_of v = []"

text \<open>
  The normalisation of the decoded response (the statements after the
  \<^verbatim>\<open>try\<close> block). They stand outside the \<^verbatim>\<open>try\<close>, so an
  \<^verbatim>\<open>AttributeError\<close> of \<^verbatim>\<open>data.get\<close> or of \<^verbatim>\<open>.strip()\<close> leaves the
  function. Membership in a list of strings compares by equality, which no value but
  the same string satisfies; after the two tests \<open>action\<close> and \<open>file_type\<close> are
  strings, read by \<open>str_of\<close>.
\<close>

definition normalize_plan :: "json \<Rightarrow> exn + plan" where
  "normalize_plan data =
     (case dict_get data (ascii ''action'') (JStr none_s) of
        Inl x \<Rightarrow> Inl x
      | Inr a \<Rightarrow>
          let action = (if a \<notin> set [JStr save_file_s, JStr send_email_s, JStr none_s]
                        then JStr none_s else a)
          in (case dict_get data (ascii ''file_type'') (JStr docx_s) of
                Inl x \<Rightarrow> Inl x
              | Inr f \<Rightarrow>
                  let file_type =
                        (if f \<notin> set [JStr pdf_s, JStr docx_s]
                         then (if action \<noteq> JStr none_s then JStr docx_s else JStr none_s)
                         else f)
                  in (case dict_get data (ascii ''email'') JNull of
                        Inl x \<Rightarrow> Inl x
                      | Inr m \<Rightarrow>
                          (case or_empty_strip m of
                             Inl x \<Rightarrow> Inl x
                           | Inr email \<Rightarrow>
                               Inr \<lparr>plan_action = str_of action,
                                    plan_file_type = str_of file_type,
                                    plan_email = email\<rparr>))))"

definition call_route_action :: "env \<Rightarrow> world \<Rightarrow> ustr \<Rightarrow> ustr \<Rightarrow> (exn + plan) \<times> world" where
  "call_route_action e w command summary_ko =
     (if COLAB_API_BASE e = [] then
        (Inr \<lparr>plan_action = none_s, plan_file_type = none_s, plan_email = []\<rparr>, w)
      else
        let w1 = log_call (RouteAction command summary_ko) w
        in case post_route_action e command summary_ko of
             Inl x \<Rightarrow>
               (Inr \<lparr>plan_action = none_s, plan_file_type = docx_s, plan_email = []\<rparr>, w1)
           | Inr data \<Rightarrow> (normalize_plan data, w1))"

section \<open>The reply composer: \<^verbatim>\<open>_call_agent_chat_for_reply\<close>\<close>

definition common_instruction :: ustr where
  "common_instruction =
     strip ([10] @ ascii ''STRICT INSTRUCTION:'' @ [10]
       @ ascii ''1. Output ONLY the final answer in Korean.'' @ [10]
       @ ascii ''2. DO NOT include any reasoning, thinking process, or English explanation.''
       @ [10]
       @ ascii ''3. DO NOT repeat the user'' @ [39] @ ascii ''s question.'' @ [10]
       @ ascii ''4. Just give the answer directly.'' @ [10] @ ascii ''    '')"

text \<open>The four prompt templates, chosen by \<open>action\<close>; 34 is the double quote.\<close>

definition build_prompt :: "ustr \<Rightarrow> ustr \<Rightarrow> ustr \<Rightarrow> ustr \<Rightarrow> ustr \<Rightarrow> ustr" where
  "build_prompt command bhc_di_ko action file_type email =
     (if action = none_s then
        strip ([10] @ ascii ''You are a medical/general knowledge chatbot.'' @ [10]
          @ common_instruction @ [10, 10] @ header_user_input @ [10] @ command
          @ [10, 10] @ header_summary @ [10]
          @ (if bhc_di_ko = [] then not_generated_yet else bhc_di_ko)
          @ [10] @ ascii ''        '')
      else if action = save_file_s then
        strip ([10] @ ascii ''You are a medical chatbot.'' @ [10]
          @ common_instruction @ [10, 10]
          @ ascii ''Context: The system is creating a '' @ [34] @ file_type @ [34]
          @ ascii '' file for the discharge summary.'' @ [10]
          @ ascii ''Your role: Briefly and politely explain in Korean that the file is being created.''
          @ [10, 10] @ header_user_input @ [10] @ command
          @ [10] @ ascii ''        '')
      else if action = send_email_s then
        strip ([10] @ ascii ''You are a medical chatbot.'' @ [10]
          @ common_instruction @ [10, 10]
          @ ascii ''Context: The system is sending a '' @ [34] @ file_type @ [34]
          @ ascii '' file to '' @ [34] @ email @ [34] @ ascii ''.'' @ [10]
          @ ascii ''Your role: Briefly and politely explain in Korean that the email is being sent.''
          @ [10, 10] @ header_user_input @ [10] @ command
          @ [10] @ ascii ''        '')
      else
        strip ([10] @ ascii ''You are a chatbot.'' @ [10]
          @ common_instruction @ [10, 10] @ header_user_input @ [10] @ command
          @ [10] @ ascii ''        ''))"

text \<open>
  Every failure of the request, of the decoding and of reading the response lies
  inside the \<^verbatim>\<open>try\<close> block and becomes the error text, so the function always
  returns a string.
\<close>

definition call_agent_chat_for_reply ::
  "env \<Rightarrow> world \<Rightarrow> ustr \<Rightarrow> ustr \<Rightarrow> ustr \<Rightarrow> ustr \<Rightarrow> ustr \<Rightarrow> ustr \<times> world" where
  "call_agent_chat_for_reply e w command bhc_di_ko action file_type email =
     (if COLAB_API_BASE e = [] then (msg_server_config, w)
      else
        let prompt = build_prompt command bhc_di_ko action file_type email;
            w1 = log_call (AgentChat prompt) w
        in case post_agent_chat e prompt of
             Inl x \<Rightarrow> (msg_reply_error @ exn_text x, w1)
           | Inr data \<Rightarrow>
               (case dict_get data (ascii ''response'') JNull of
                  Inl x \<Rightarrow> (msg_reply_error @ exn_text x, w1)
                | Inr r \<Rightarrow>
                    (case or_empty_strip r of
                       Inl x \<Rightarrow> (msg_reply_error @ exn_text x, w1)
                     | Inr reply \<Rightarrow>
                         (keep_korean_lines (if reply = [] then msg_try_again else reply),
                          w1))))"

section \<open>Files and mail\<close>

text \<open>
  \<^verbatim>\<open>create_docx_file\<close> and \<^verbatim>\<open>create_pdf_file\<close>: the directory of the path
  is created, then the document is rendered and saved.
\<close>

definition create_docx_file :: "env \<Rightarrow> world \<Rightarrow> ustr \<Rightarrow> ustr \<Rightarrow> (exn + unit) \<times> world" where
  "create_docx_file e w text out_path =
     (case makedirs e w (dirname out_path) of
        (Inl x, w1) \<Rightarrow> (Inl x, w1)
      | (Inr u, w1) \<Rightarrow>
          let w2 = log_call (WriteDocx out_path) w1
          in (case render_docx e text out_path of
                Inl x \<Rightarrow> (Inl x, w2)
              | Inr b \<Rightarrow> (Inr (), w2\<lparr>files := (files w2)(out_path \<mapsto> b)\<rparr>)))"

definition create_pdf_file :: "env \<Rightarrow> world \<Rightarrow> ustr \<Rightarrow> ustr \<Rightarrow> (exn + unit) \<times> world" where
  "create_pdf_file e w text out_path =
     (case makedirs e w (dirname out_path) of
        (Inl x, w1) \<Rightarrow> (Inl x, w1)
      | (Inr u, w1) \<Rightarrow>
          let w2 = log_call (WritePdf out_path) w1
          in (case render_pdf e text out_path of
                Inl x \<Rightarrow> (Inl x, w2)
              | Inr b \<Rightarrow> (Inr (), w2\<lparr>files := (files w2)(out_path \<mapsto> b)\<rparr>)))"

text \<open>
  \<^verbatim>\<open>send_email_with_attachment\<close>: a \<^verbatim>\<open>RuntimeError\<close> when a variable is unset
  or empty; otherwise the message is built and sent, \<open>smtp_error\<close> giving the exception
  of the session, if any.
\<close>

text \<open>\<^verbatim>\<open>state.get(key, d) or d\<close>, and the value of an environment variable read the same way.\<close>

definition get_or :: "ustr option \<Rightarrow> ustr \<Rightarrow> ustr" where
  "get_or v d = (case v of None \<Rightarrow> d | Some s \<Rightarrow> if s = [] then d else s)"

definition unset :: "ustr option \<Rightarrow> bool" where
  "unset v \<longleftrightarrow> v = None \<or> v = Some []"

definition send_email_with_attachment ::
  "env \<Rightarrow> world \<Rightarrow> ustr \<Rightarrow> ustr \<Rightarrow> ustr \<Rightarrow> ustr \<Rightarrow> nat list \<Rightarrow> (exn + unit) \<times> world" where
  "send_email_with_attachment e w to_email subject body filename file_bytes =
     (let w1 = log_call (SendEmail to_email) w
      in if unset (SMTP_USER e) \<or> unset (SMTP_PASSWORD e) then (Inl (Exn msg_smtp_env), w1)
         else
           let msg = \<lparr>mail_from = get_or (SMTP_USER e) [], mail_to = to_email,
                      mail_subject = subject, mail_body = body, mail_filename = filename,
                      mail_bytes = file_bytes\<rparr>
           in (case smtp_error e msg of
                 Some x \<Rightarrow> (Inl x, w1)
               | None \<Rightarrow> (Inr (), w1\<lparr>outbox := outbox w1 @ [msg]\<rparr>)))"

text \<open>
  The \<^verbatim>\<open>if file_type == "pdf" ... else ...\<close> that both action branches of \<^verbatim>\<open>chat_and_act_node\<close> contain,
  each with its own two file names: the file type and path chosen, and the file created.
  The calls stand outside any \<^verbatim>\<open>try\<close>, so their exceptions leave the node.
\<close>

definition produce_file ::
  "env \<Rightarrow> world \<Rightarrow> ustr \<Rightarrow> ustr \<Rightarrow> ustr \<Rightarrow> ustr \<Rightarrow> ustr \<Rightarrow> (exn + ustr \<times> ustr) \<times> world" where
  "produce_file e w file_type bhc base_dir pdf_name docx_name =
     (if file_type = pdf_s then
        let fp = path_join base_dir pdf_name
        in (case create_pdf_file e w bhc fp of
              (Inl x, w1) \<Rightarrow> (Inl x, w1)
            | (Inr u, w1) \<Rightarrow> (Inr (file_type, fp), w1))
      else
        let fp = path_join base_dir docx_name
        in (case create_docx_file e w bhc fp of
              (Inl x, w1) \<Rightarrow> (Inl x, w1)
            | (Inr u, w1) \<Rightarrow> (Inr (docx_s, fp), w1)))"

text \<open>
  The \<^verbatim>\<open>try\<close> block of the e-mail branch of \<^verbatim>\<open>chat_and_act_node\<close>: the file is read and sent, and any
  exception becomes a warning appended to the message.
\<close>

definition dispatch :: "env \<Rightarrow> world \<Rightarrow> ustr \<Rightarrow> ustr \<Rightarrow> ustr \<Rightarrow> ustr \<times> world" where
  "dispatch e w email fp result_message =
     (case read_file e w fp of
        (Inl x, w1) \<Rightarrow> (result_message @ warn_send_error @ exn_text x @ ascii '')'', w1)
      | (Inr file_bytes, w1) \<Rightarrow>
          (case send_email_with_attachment e w1 email subject_text body_text (basename fp)
                  file_bytes of
             (Inl x, w2) \<Rightarrow> (result_message @ warn_send_error @ exn_text x @ ascii '')'', w2)
           | (Inr u, w2) \<Rightarrow> (result_message @ note_sent_to @ email @ note_sent_end, w2)))"

section \<open>The graph: \<^verbatim>\<open>classify_node\<close>, \<^verbatim>\<open>chat_and_act_node\<close> and the run\<close>

text \<open>
  \<^verbatim>\<open>AgentState\<close>: the three inputs are given by the caller; the other keys are
  absent until a node sets them. A node returns the keys it sets, which the graph
  writes into the state.
\<close>

record agent_state =
  command :: ustr
  bhc_di_en :: ustr
  bhc_di_ko :: ustr
  action :: "ustr option"
  file_type :: "ustr option"
  email :: "ustr option"
  file_path :: "ustr option"
  result_message :: "ustr option"

definition classify_node :: "env \<Rightarrow> world \<Rightarrow> agent_state \<Rightarrow> agent_state \<times> world" where
  "classify_node e w state =
     (case call_route_action e w (command state) (bhc_di_ko state) of
        (Inl x, w1) \<Rightarrow>
          (state\<lparr>action := Some none_s, file_type := Some none_s, email := Some [],
                 result_message := Some (msg_classify_error @ exn_text x)\<rparr>, w1)
      | (Inr result, w1) \<Rightarrow>
          (state\<lparr>action := Some (plan_action result),
                 file_type := Some (plan_file_type result),
                 email := Some (plan_email result)\<rparr>, w1))"

text \<open>The five keys \<^verbatim>\<open>chat_and_act_node\<close> returns, written into the state.\<close>

definition returned :: "agent_state \<Rightarrow> ustr \<Rightarrow> ustr \<Rightarrow> ustr \<Rightarrow> ustr \<Rightarrow> ustr \<Rightarrow> agent_state" where
  "returned state a ft em fp msg =
     state\<lparr>action := Some a, file_type := Some ft, email := Some em, file_path := Some fp,
           result_message := Some msg\<rparr>"

text \<open>
  \<^verbatim>\<open>chat_and_act_node\<close>. The reply composer cannot raise, so the \<^verbatim>\<open>except\<close>
  around its call is never entered; \<open>prev_message\<close> is read and never used.
\<close>

definition chat_and_act_node :: "env \<Rightarrow> world \<Rightarrow> agent_state \<Rightarrow> (exn + agent_state) \<times> world" where
  "chat_and_act_node e w state =
     (let bhc = bhc_di_ko state;
          act = get_or (action state) none_s;
          ft = lower (get_or (file_type state) none_s);
          em = get_or (email state) []
      in if act \<in> set [save_file_s, send_email_s] \<and> strip bhc = [] then
           (Inr (returned state none_s none_s [] [] msg_no_summary), w)
         else
           (case call_agent_chat_for_reply e w (command state) bhc act ft em of
              (reply, w1) \<Rightarrow>
                let base_dir = path_join (cwd e) (ascii ''generated'')
                in (case makedirs e w1 base_dir of
                      (Inl x, w2) \<Rightarrow> (Inl x, w2)
                    | (Inr u, w2) \<Rightarrow>
                        if act = save_file_s then
                          (case produce_file e w2 ft bhc base_dir
                                  (ascii ''discharge_summary.pdf'')
                                  (ascii ''discharge_summary.docx'') of
                             (Inl x, w3) \<Rightarrow> (Inl x, w3)
                           | (Inr (ft', fp), w3) \<Rightarrow>
                               (Inr (returned state act ft' em fp
                                  (reply @ note_file_created @ basename fp @ ascii '')'')), w3))
                        else if act = send_email_s then
                          (case produce_file e w2 ft bhc base_dir
                                  (ascii ''discharge_summary_email.pdf'')
                                  (ascii ''discharge_summary_email.docx'') of
                             (Inl x, w3) \<Rightarrow> (Inl x, w3)
                           | (Inr (ft', fp), w3) \<Rightarrow>
                               if em = [] then
                                 (Inr (returned state act ft' em fp (reply @ warn_no_address)), w3)
                               else
                                 (case dispatch e w3 em fp reply of
                                    (msg, w4) \<Rightarrow> (Inr (returned state act ft' em fp msg), w4)))
                        else (Inr (returned state act ft em [] reply), w2))))"

text \<open>
  One invocation of the compiled graph, as the user interface makes it: the state holds
  the three inputs, and the edges are \<open>START \<rightarrow> classify \<rightarrow> chat_and_act \<rightarrow> END\<close>,
  whatever the classification node returns.
\<close>

definition initial_state :: "ustr \<Rightarrow> ustr \<Rightarrow> ustr \<Rightarrow> agent_state" where
  "initial_state cmd summary_ko summary_en =
     \<lparr>command = cmd, bhc_di_en = summary_en, bhc_di_ko = summary_ko, action = None,
      file_type = None, email = None, file_path = None, result_message = None\<rparr>"

definition run :: "env \<Rightarrow> world \<Rightarrow> ustr \<Rightarrow> ustr \<Rightarrow> ustr \<Rightarrow> (exn + agent_state) \<times> world" where
  "run e w cmd summary_ko summary_en =
     (case classify_node e w (initial_state cmd summary_ko summary_en) of
        (state, w1) \<Rightarrow> chat_and_act_node e w1 state)"

section \<open>The line rule in the words of the specification\<close>

text \<open>
  The rule of the specification for one trimmed line: the line is dropped when it holds
  no Hangul syllable (U+AC00 to U+D7A3), or when more than ten of its characters are
  not the space U+0020 and fewer than a fifth of those are Hangul syllables.
\<close>

definition spec_drops_line :: "ustr \<Rightarrow> bool" where
  "spec_drops_line s \<longleftrightarrow>
     (let h = length (filter (\<lambda>c. 44032 \<le> c \<and> c \<le> 55203) s);
          n = length (filter (\<lambda>c. c \<noteq> 32) s)
      in h = 0 \<or> (10 < n \<and> (of_nat h :: rat) / of_nat n < 2 / 10))"

text \<open>
  Two Korean sentences used as inputs: "the patient is stable." (the example of the
  specification) and "the patient is thinking.".
\<close>

definition stable_ko :: ustr where
  "stable_ko = [54872, 51088, 45716, 32, 50504, 51221, 51201, 51077, 45768, 45796, 46]"

definition thinking_ko :: ustr where
  "thinking_ko = [54872, 51088, 45716, 32, 49373, 44033, 51473, 51077, 45768, 45796, 46]"

section \<open>Notions used in the statements\<close>

text \<open>The output directory \<^verbatim>\<open>os.path.join(os.getcwd(), "generated")\<close>.\<close>

definition generated_dir :: "env \<Rightarrow> ustr" where
  "generated_dir e = path_join (cwd e) (ascii ''generated'')"

text \<open>The state after the classification node, and the world it leaves.\<close>

definition classified :: "env \<Rightarrow> world \<Rightarrow> ustr \<Rightarrow> ustr \<Rightarrow> ustr \<Rightarrow> agent_state" where
  "classified e w cmd summary_ko summary_en =
     fst (classify_node e w (initial_state cmd summary_ko summary_en))"

definition after_classify :: "env \<Rightarrow> world \<Rightarrow> ustr \<Rightarrow> ustr \<Rightarrow> ustr \<Rightarrow> world" where
  "after_classify e w cmd summary_ko summary_en =
     snd (classify_node e w (initial_state cmd summary_ko summary_en))"

text \<open>A result with all five keys set.\<close>

definition populated :: "agent_state \<Rightarrow> bool" where
  "populated st \<longleftrightarrow>
     action st \<noteq> None \<and> file_type st \<noteq> None \<and> email st \<noteq> None \<and> file_path st \<noteq> None
     \<and> result_message st \<noteq> None"

text \<open>
  The output directory can be created and the summary can be rendered and written to
  each of the four artifact paths.
\<close>

definition artifact_io_ok :: "env \<Rightarrow> ustr \<Rightarrow> bool" where
  "artifact_io_ok e summary_ko \<longleftrightarrow>
     makedirs_error e (generated_dir e) = None
     \<and> \<not> isl (render_pdf e summary_ko
            (path_join (generated_dir e) (ascii ''discharge_summary.pdf'')))
     \<and> \<not> isl (render_docx e summary_ko
            (path_join (generated_dir e) (ascii ''discharge_summary.docx'')))
     \<and> \<not> isl (render_pdf e summary_ko
            (path_join (generated_dir e) (ascii ''discharge_summary_email.pdf'')))
     \<and> \<not> isl (render_docx e summary_ko
            (path_join (generated_dir e) (ascii ''discharge_summary_email.docx'')))"

text \<open>The exception, if any, that creating the directory or an artifact raises.\<close>

definition artifact_io_raises :: "env \<Rightarrow> ustr \<Rightarrow> exn \<Rightarrow> bool" where
  "artifact_io_raises e summary_ko x \<longleftrightarrow>
     makedirs_error e (generated_dir e) = Some x
     \<or> render_pdf e summary_ko
          (path_join (generated_dir e) (ascii ''discharge_summary.pdf'')) = Inl x
     \<or> render_docx e summary_ko
          (path_join (generated_dir e) (ascii ''discharge_summary.docx'')) = Inl x
     \<or> render_pdf e summary_ko
          (path_join (generated_dir e) (ascii ''discharge_summary_email.pdf'')) = Inl x
     \<or> render_docx e summary_ko
          (path_join (generated_dir e) (ascii ''discharge_summary_email.docx'')) = Inl x"

text \<open>
  The guard of \<^verbatim>\<open>chat_and_act_node\<close>: a file or mail action was classified and
  the Korean summary is blank.
\<close>

definition guard_fires :: "env \<Rightarrow> world \<Rightarrow> ustr \<Rightarrow> ustr \<Rightarrow> ustr \<Rightarrow> bool" where
  "guard_fires e w cmd summary_ko summary_en \<longleftrightarrow>
     action (classified e w cmd summary_ko summary_en) \<in> {Some save_file_s, Some send_email_s}
     \<and> strip summary_ko = []"

text \<open>
  The reply the composer returns for the classified state, and the world it leaves.
\<close>

definition composed :: "env \<Rightarrow> world \<Rightarrow> agent_state \<Rightarrow> ustr \<times> world" where
  "composed e w st =
     call_agent_chat_for_reply e w (command st) (bhc_di_ko st) (get_or (action st) none_s)
       (lower (get_or (file_type st) none_s)) (get_or (email st) [])"

text \<open>Sample collaborators: an empty world, and environments for the concrete runs.\<close>

definition world0 :: world where
  "world0 = \<lparr>dirs = {}, files = Map.empty, outbox = [], calls = []\<rparr>"

definition sample_env :: "(exn + json) \<Rightarrow> exn option \<Rightarrow> ustr option \<Rightarrow> env" where
  "sample_env route mk smtp_user =
     \<lparr>COLAB_API_BASE = ascii ''http://colab'', cwd = ascii ''/app'',
      SMTP_USER = smtp_user, SMTP_PASSWORD = Some (ascii ''secret''),
      post_route_action = (\<lambda>c s. route),
      post_agent_chat = (\<lambda>p. Inr (JObj [(ascii ''response'', JStr stable_ko)])),
      makedirs_error = (\<lambda>p. mk),
      render_pdf = (\<lambda>t p. Inr [37, 80, 68, 70]),
      render_docx = (\<lambda>t p. Inr [80, 75]),
      read_error = (\<lambda>p. None),
      smtp_error = (\<lambda>m. None)\<rparr>"

definition route_json :: "ustr \<Rightarrow> ustr \<Rightarrow> ustr \<Rightarrow> json" where
  "route_json a f m =
     JObj [(ascii ''action'', JStr a), (ascii ''file_type'', JStr f), (ascii ''email'', JStr m)]"

text \<open>The calls to the two remote endpoints, as opposed to files and mail.\<close>

fun is_remote :: "call \<Rightarrow> bool" where
  "is_remote (RouteAction c s) = True"
| "is_remote (AgentChat p) = True"
| "is_remote c = False"

text \<open>
  A later world: the calls of the earlier one are a prefix of its calls, and it has all
  the directories of the earlier one.
\<close>

definition extends :: "world \<Rightarrow> world \<Rightarrow> bool" where
  "extends w w' \<longleftrightarrow> (\<exists>post. calls w' = calls w @ post) \<and> dirs w \<subseteq> dirs w'"

text \<open>
  The plan that the normalisation is expected to give for a response object, field by
  field: the reported action when it is one of the three words and \<open>none\<close> otherwise;
  the reported file type when it is \<open>pdf\<close> or \<open>docx\<close>, \<open>docx\<close> when the key is
  absent (the default of \<^verbatim>\<open>data.get("file_type", "docx")\<close>), and for any other value
  \<open>none\<close> when the action is \<open>none\<close> and \<open>docx\<close> otherwise; the reported address
  trimmed when it is a string, and empty otherwise.
\<close>

fun is_str :: "json \<Rightarrow> bool" where
  "is_str (JStr s) = True"
| "is_str v = False"

definition expected_plan :: "(ustr \<times> json) list \<Rightarrow> plan" where
  "expected_plan kvs =
     (let a = (case map_of kvs (ascii ''action'') of
                 Some (JStr s) \<Rightarrow>
                   if s \<in> set [none_s, save_file_s, send_email_s] then s else none_s
               | _ \<Rightarrow> none_s)
      in \<lparr>plan_action = a,
          plan_file_type =
            (case map_of kvs (ascii ''file_type'') of
               None \<Rightarrow> docx_s
             | Some v \<Rightarrow>
                 if v = JStr pdf_s then pdf_s
                 else if v = JStr docx_s then docx_s
                 else if a = none_s then none_s
                 else docx_s),
          plan_email =
            (case map_of kvs (ascii ''email'') of Some (JStr s) \<Rightarrow> strip s | _ \<Rightarrow> [])\<rparr>)"

text \<open>
  The artifact of a state: the format \<^verbatim>\<open>chat_and_act_node\<close> reads from it, the path
  of the file in each of the two action branches, the rendering of the summary written
  there, and the call that writes it.
\<close>

definition chosen_format :: "agent_state \<Rightarrow> ustr" where
  "chosen_format st = lower (get_or (file_type st) none_s)"

definition save_artifact_path :: "env \<Rightarrow> agent_state \<Rightarrow> ustr" where
  "save_artifact_path e st =
     path_join (generated_dir e)
       (if chosen_format st = pdf_s then ascii ''discharge_summary.pdf''
        else ascii ''discharge_summary.docx'')"

definition email_artifact_path :: "env \<Rightarrow> agent_state \<Rightarrow> ustr" where
  "email_artifact_path e st =
     path_join (generated_dir e)
       (if chosen_format st = pdf_s then ascii ''discharge_summary_email.pdf''
        else ascii ''discharge_summary_email.docx'')"

definition render_at :: "env \<Rightarrow> agent_state \<Rightarrow> ustr \<Rightarrow> exn + nat list" where
  "render_at e st fp =
     (if chosen_format st = pdf_s then render_pdf e (bhc_di_ko st) fp
      else render_docx e (bhc_di_ko st) fp)"

definition write_call :: "agent_state \<Rightarrow> ustr \<Rightarrow> call" where
  "write_call st fp = (if chosen_format st = pdf_s then WritePdf fp else WriteDocx fp)"

text \<open>
  The exception, if any, of the file operations that \<^verbatim>\<open>chat_and_act_node\<close> performs
  outside any \<^verbatim>\<open>try\<close> for a state that passes the guard: creating the output
  directory, then, in the \<open>save_file\<close> and \<open>send_email\<close> branches, writing the one
  artifact of the chosen format at the path of that branch.
\<close>

definition artifact_failure :: "env \<Rightarrow> agent_state \<Rightarrow> exn option" where
  "artifact_failure e st =
     (case makedirs_error e (generated_dir e) of
        Some x \<Rightarrow> Some x
      | None \<Rightarrow>
          if action st = Some save_file_s then
            (case render_at e st (save_artifact_path e st) of Inl x \<Rightarrow> Some x | Inr b \<Rightarrow> None)
          else if action st = Some send_email_s then
            (case render_at e st (email_artifact_path e st) of Inl x \<Rightarrow> Some x | Inr b \<Rightarrow> None)
          else None)"

text \<open>
  The exception, if any, of dispatching the file \<open>fp\<close> with bytes \<open>b\<close> to the address
  \<open>em\<close>: that of reading the file back, else the \<^verbatim>\<open>RuntimeError\<close> for an unset or
  empty \<^verbatim>\<open>SMTP_USER\<close> or \<^verbatim>\<open>SMTP_PASSWORD\<close>, else that of the SMTP session (login
  or transport) for the message built.
\<close>

definition dispatch_error :: "env \<Rightarrow> ustr \<Rightarrow> ustr \<Rightarrow> nat list \<Rightarrow> exn option" where
  "dispatch_error e em fp b =
     (case read_error e fp of
        Some x \<Rightarrow> Some x
      | None \<Rightarrow>
          if unset (SMTP_USER e) \<or> unset (SMTP_PASSWORD e) then Some (Exn msg_smtp_env)
          else smtp_error e
                 \<lparr>mail_from = get_or (SMTP_USER e) [], mail_to = em,
                  mail_subject = subject_text, mail_body = body_text,
                  mail_filename = basename fp, mail_bytes = b\<rparr>)"

text \<open>
  Two more sample environments: one whose SMTP server refuses the login, and one whose
  disk is full when the PDF is written.
\<close>

definition auth_failure_env :: env where
  "auth_failure_env =
     (sample_env (Inr (route_json send_email_s docx_s (ascii ''a@b.kr''))) None
        (Some (ascii ''me@x.kr'')))
     \<lparr>smtp_error := (\<lambda>m. Some (Exn (ascii ''(535, Username and Password not accepted)'')))\<rparr>"

definition disk_full_env :: env where
  "disk_full_env =
     (sample_env (Inr (route_json save_file_s pdf_s [])) None None)
     \<lparr>render_pdf := (\<lambda>t p. Inl (Exn (ascii ''[Errno 28] No space left on device'')))\<rparr>"

section \<open>Properties of the reply filter\<close>

lemmas filter_eval =
  keep_korean_lines_def splitlines_def ascii_def strip_def isspace_def is_linebreak_def
  search_hangul_def is_hangul_def think_open_def think_close_def korean_count_def
  total_count_def korean_ratio_def stable_ko_def thinking_ko_def

lemma last_dropWhile: "dropWhile P xs \<noteq> [] \<Longrightarrow> last (dropWhile P xs) = last xs"
  by (induction xs) (auto split: if_splits)

lemma strip_ends:
  assumes "strip s \<noteq> []"
  shows "\<not> isspace (hd (strip s))" and "\<not> isspace (last (strip s))"
proof -
  let ?t = "dropWhile isspace s"
  let ?u = "dropWhile isspace (rev ?t)"
  from assms have u: "?u \<noteq> []" by (simp add: strip_def)
  have t: "?t \<noteq> []"
  proof
    assume "?t = []"
    then have "?u = []" by (simp del: dropWhile_eq_Nil_conv)
    with u show False by simp
  qed
  have "last (strip s) = hd ?u" using u by (simp add: strip_def last_rev)
  moreover have "\<not> isspace (hd ?u)" using u by (rule hd_dropWhile)
  ultimately show "\<not> isspace (last (strip s))" by simp
  have "hd (strip s) = last ?u" using u by (simp add: strip_def hd_rev)
  also have "\<dots> = last (rev ?t)" using u by (rule last_dropWhile)
  also have "\<dots> = hd ?t" using t by (simp add: last_rev)
  finally show "\<not> isspace (hd (strip s))" using hd_dropWhile [OF t] by simp
qed

lemma dropWhile_id: "xs \<noteq> [] \<Longrightarrow> \<not> P (hd xs) \<Longrightarrow> dropWhile P xs = xs"
  by (cases xs) auto

lemma strip_fixed:
  assumes "s \<noteq> []" "\<not> isspace (hd s)" "\<not> isspace (last s)"
  shows "strip s = s"
proof -
  have "dropWhile isspace s = s" using assms by (simp add: dropWhile_id)
  moreover have "dropWhile isspace (rev s) = rev s"
    using assms by (simp add: dropWhile_id hd_rev)
  ultimately show ?thesis by (simp add: strip_def)
qed

lemma set_strip: "set (strip l) \<subseteq> set l"
proof
  fix x assume "x \<in> set (strip l)"
  then have "x \<in> set (dropWhile isspace (rev (dropWhile isspace l)))"
    by (simp add: strip_def)
  then have "x \<in> set (rev (dropWhile isspace l))" by (rule set_dropWhileD)
  then have "x \<in> set (dropWhile isspace l)" by simp
  then show "x \<in> set l" by (rule set_dropWhileD)
qed

lemma strip_no_hangul: "\<not> list_ex is_hangul l \<Longrightarrow> \<not> list_ex is_hangul (strip l)"
  using set_strip [of l] by (auto simp: list_ex_iff)

lemma join_ends:
  assumes "ks \<noteq> []" "\<forall>k\<in>set ks. k \<noteq> []"
  shows "join sep ks \<noteq> [] \<and> hd (join sep ks) = hd (hd ks) \<and> last (join sep ks) = last (last ks)"
  using assms by (induction sep ks rule: join.induct) auto

lemma strip_join_kept:
  assumes "\<forall>k\<in>set ks. k \<noteq> [] \<and> \<not> isspace (hd k) \<and> \<not> isspace (last k)"
  shows "strip (join [10] ks) = join [10] ks"
proof (cases "ks = []")
  case True
  then show ?thesis by (simp add: strip_def)
next
  case False
  with assms have "join [10] ks \<noteq> [] \<and> hd (join [10] ks) = hd (hd ks)
      \<and> last (join [10] ks) = last (last ks)"
    by (intro join_ends) auto
  moreover have "hd ks \<in> set ks" "last ks \<in> set ks" using False by auto
  ultimately show ?thesis using assms by (intro strip_fixed) auto
qed

lemma search_hangul_count: "search_hangul s \<longleftrightarrow> korean_count s \<noteq> 0"
  by (auto simp: search_hangul_def korean_count_def list_ex_iff filter_empty_conv)

lemma keep_step:
  "keep_loop (l # ls) kept =
     keep_loop ls (if strip l \<noteq> [] \<and> \<not> spec_drops_line (strip l) then kept @ [strip l] else kept)"
proof -
  have h: "is_hangul = (\<lambda>c. 44032 \<le> c \<and> c \<le> 55203)"
    by (simp add: fun_eq_iff is_hangul_def)
  show ?thesis
    by (auto simp: Let_def spec_drops_line_def search_hangul_count korean_count_def
          total_count_def korean_ratio_def h)
qed

lemma keep_loop_filter:
  "keep_loop ls kept =
     kept @ map strip (filter (\<lambda>l. strip l \<noteq> [] \<and> \<not> spec_drops_line (strip l)) ls)"
proof (induction ls arbitrary: kept)
  case Nil
  show ?case by simp
next
  case (Cons l ls)
  show ?case unfolding keep_step Cons.IH by simp
qed

lemma keep_korean_lines_filter:
  "keep_korean_lines text =
     (let ks = map strip (filter (\<lambda>l. strip l \<noteq> [] \<and> \<not> spec_drops_line (strip l))
                 (splitlines text))
      in if ks = [] then remove_think text else join [10] ks)"
proof -
  define ks where
    "ks = map strip (filter (\<lambda>l. strip l \<noteq> [] \<and> \<not> spec_drops_line (strip l)) (splitlines text))"
  have loop: "keep_loop (splitlines text) [] = ks"
    by (simp add: keep_loop_filter ks_def)
  have "\<forall>k\<in>set ks. k \<noteq> [] \<and> \<not> isspace (hd k) \<and> \<not> isspace (last k)"
    using strip_ends by (auto simp: ks_def)
  then have s: "strip (join [10] ks) = join [10] ks"
    and ne: "ks \<noteq> [] \<Longrightarrow> join [10] ks \<noteq> []"
    using join_ends [of ks "[10]"] by (simp_all add: strip_join_kept)
  have "keep_korean_lines text = (if ks = [] then remove_think text else join [10] ks)"
  proof (cases "ks = []")
    case True
    then show ?thesis by (simp add: keep_korean_lines_def loop strip_def)
  next
    case False
    with ne show ?thesis by (simp add: keep_korean_lines_def loop s)
  qed
  then show ?thesis by (simp add: ks_def Let_def)
qed

lemma splitlines_from_line:
  "\<not> list_ex is_linebreak l \<Longrightarrow>
     splitlines_from cur (l @ 10 # r) = (cur @ l) # splitlines_from [] r"
proof (induction l arbitrary: cur)
  case Nil
  show ?case by (cases r) (simp_all add: is_linebreak_def)
next
  case (Cons c l)
  then have c: "\<not> is_linebreak c" and l: "\<not> list_ex is_linebreak l" by simp_all
  from c have c13: "c \<noteq> 13" by (auto simp: is_linebreak_def)
  have step: "splitlines_from cur (c # l @ 10 # r) = splitlines_from (cur @ [c]) (l @ 10 # r)"
    using c c13 by (cases l) simp_all
  show ?case using Cons.IH [OF l, of "cur @ [c]"] by (simp add: step)
qed

text \<open>
  Claim C4: the filter removes every \<^verbatim>\<open><think>...</think>\<close> block before the
  line-by-line filtering, so that no line inside such a block reaches the output.
  The code takes \<open>lines\<close> from the text before the removal, so the loop still sees
  the lines of the block. On the input
  \<^verbatim>\<open><think>\n[the patient is thinking.]\n</think>\n[the patient is stable.]\<close>
  the Korean line inside the block is returned together with the line after it, although
  the removal by itself leaves only the line after the block.
\<close>

theorem think_block_lines_survive:
  "keep_korean_lines
     (think_open @ [10] @ thinking_ko @ [10] @ think_close @ [10] @ stable_ko)
     = thinking_ko @ [10] @ stable_ko
   \<and> remove_think
     (think_open @ [10] @ thinking_ko @ [10] @ think_close @ [10] @ stable_ko)
     = [10] @ stable_ko"
  by (simp add: filter_eval)

text \<open>
  Claim C5: a non-empty input never yields an empty output, the original text being
  returned when the line filter keeps nothing. The value returned in that case is the
  text after the tag removal, not the original: the non-empty input
  \<^verbatim>\<open><think>abc</think>\<close>, which holds no Hangul syllable, yields the empty string.
\<close>

theorem fallback_returns_empty:
  "ascii ''<think>abc</think>'' \<noteq> [] \<and> keep_korean_lines (ascii ''<think>abc</think>'') = []"
  by (simp add: filter_eval)

text \<open>
  Claim C6: every non-blank line of the input is dropped if and only if it holds no
  Hangul syllable, or more than ten of its characters are non-space and fewer than a
  fifth of those are Hangul syllables; a line with at most ten non-space characters and
  a Hangul syllable is always kept; and a two-line input whose first line is without
  Hangul and whose second line is "the patient is stable." in Korean yields the second
  line alone. The counts are those of the trimmed line, a non-space character is one
  other than U+0020, and the output is the kept lines, trimmed and joined by newlines
  (the result of the tag removal when none is kept).
\<close>

theorem filter_line_rule:
  "keep_korean_lines text =
     (let ks = map strip (filter (\<lambda>l. strip l \<noteq> [] \<and> \<not> spec_drops_line (strip l))
                 (splitlines text))
      in if ks = [] then remove_think text else join [10] ks)
   \<and> (strip l \<noteq> [] \<longrightarrow> (keep_loop [l] kept = kept \<longleftrightarrow> spec_drops_line (strip l)))
   \<and> (strip l \<noteq> [] \<and> total_count (strip l) \<le> 10 \<and> 1 \<le> korean_count (strip l)
        \<longrightarrow> keep_loop [l] kept = kept @ [strip l])
   \<and> (\<not> list_ex is_hangul l1 \<and> \<not> list_ex is_linebreak l1
        \<longrightarrow> keep_korean_lines (l1 @ [10] @ stable_ko) = stable_ko)"
proof (intro conjI impI)
  show "keep_korean_lines text =
     (let ks = map strip (filter (\<lambda>l. strip l \<noteq> [] \<and> \<not> spec_drops_line (strip l))
                 (splitlines text))
      in if ks = [] then remove_think text else join [10] ks)"
    by (rule keep_korean_lines_filter)
next
  assume "strip l \<noteq> []"
  then show "keep_loop [l] kept = kept \<longleftrightarrow> spec_drops_line (strip l)"
    by (simp add: keep_loop_filter)
next
  assume a: "strip l \<noteq> [] \<and> total_count (strip l) \<le> 10 \<and> 1 \<le> korean_count (strip l)"
  have h: "is_hangul = (\<lambda>c. 44032 \<le> c \<and> c \<le> 55203)"
    by (simp add: fun_eq_iff is_hangul_def)
  from a have "\<not> spec_drops_line (strip l)"
    by (auto simp: spec_drops_line_def korean_count_def total_count_def h Let_def)
  with a show "keep_loop [l] kept = kept @ [strip l]"
    by (simp add: keep_loop_filter)
next
  assume a: "\<not> list_ex is_hangul l1 \<and> \<not> list_ex is_linebreak l1"
  then have lines: "splitlines (l1 @ [10] @ stable_ko) = [l1, stable_ko]"
    using splitlines_from_line [of l1 "[]" stable_ko]
    by (simp add: splitlines_def stable_ko_def is_linebreak_def)
  have h: "is_hangul = (\<lambda>c. 44032 \<le> c \<and> c \<le> 55203)"
    by (simp add: fun_eq_iff is_hangul_def)
  from a have "\<not> list_ex is_hangul (strip l1)" by (simp add: strip_no_hangul)
  then have "filter (\<lambda>c. 44032 \<le> c \<and> c \<le> 55203) (strip l1) = []"
    by (simp add: h list_ex_iff filter_empty_conv)
  then have d1: "spec_drops_line (strip l1)"
    by (simp add: spec_drops_line_def)
  have s2: "strip stable_ko = stable_ko"
    by (simp add: strip_def stable_ko_def isspace_def)
  have d2: "\<not> spec_drops_line stable_ko"
    by (simp add: spec_drops_line_def stable_ko_def)
  have ne: "stable_ko \<noteq> []" by (simp add: stable_ko_def)
  show "keep_korean_lines (l1 @ [10] @ stable_ko) = stable_ko"
    unfolding keep_korean_lines_filter lines by (simp add: d1 d2 s2 ne)
qed

theorem filter_line_rule_witness:
  "keep_korean_lines (ascii ''Okay, let me think about this.'' @ [10] @ stable_ko) = stable_ko
   \<and> keep_loop [stable_ko] [] = [stable_ko]
   \<and> spec_drops_line (ascii ''Okay, let me think about this.'')
   \<and> keep_loop [ascii ''Okay, let me think about this.''] [] = []"
proof -
  let ?e = "ascii ''Okay, let me think about this.''"
  have e: "?e = [79, 107, 97, 121, 44, 32, 108, 101, 116, 32, 109, 101, 32, 116, 104, 105,
      110, 107, 32, 97, 98, 111, 117, 116, 32, 116, 104, 105, 115, 46]"
    by (simp add: ascii_def)
  have h1: "\<not> list_ex is_hangul ?e \<and> \<not> list_ex is_linebreak ?e"
    unfolding e by (simp add: is_hangul_def is_linebreak_def)
  have s1: "strip ?e = ?e"
    unfolding e by (simp add: strip_def isspace_def)
  have s2: "strip stable_ko = stable_ko"
    by (simp add: strip_def stable_ko_def isspace_def)
  have h2: "strip stable_ko \<noteq> [] \<and> total_count (strip stable_ko) \<le> 10
      \<and> 1 \<le> korean_count (strip stable_ko)"
    unfolding s2 by (simp add: stable_ko_def total_count_def korean_count_def is_hangul_def)
  have d: "spec_drops_line ?e"
    unfolding e by (simp add: spec_drops_line_def)
  have ne: "strip ?e \<noteq> []"
    by (subst s1) (simp add: e)
  note a = filter_line_rule [of "[]" stable_ko "[]" ?e]
  note b = filter_line_rule [of "[]" ?e "[]" "[]"]
  from a h1 have "keep_korean_lines (?e @ [10] @ stable_ko) = stable_ko" by blast
  moreover from a h2 have "keep_loop [stable_ko] [] = [stable_ko]" by (simp add: s2)
  moreover from b ne d have "keep_loop [?e] [] = []" unfolding s1 by blast
  ultimately show ?thesis using d by blast
qed

section \<open>Properties of the pipeline\<close>

lemma path_join_rel: "n \<noteq> [] \<Longrightarrow> 47 \<notin> set n \<Longrightarrow> b \<noteq> [] \<Longrightarrow> last b \<noteq> 47 \<Longrightarrow> path_join b n = b @ [47] @ n"
  by (cases n) (auto simp: path_join_def)

lemma generated_dir_ends: "generated_dir e \<noteq> [] \<and> last (generated_dir e) \<noteq> 47"
  by (simp add: generated_dir_def path_join_def ascii_def)

lemma dropWhile_upto:
  "\<forall>x\<in>set xs. P x \<Longrightarrow> \<not> P y \<Longrightarrow> dropWhile P (xs @ y # ys) = y # ys"
  by (induction xs) auto

lemma dirname_join:
  assumes "n \<noteq> []" "47 \<notin> set n" "b \<noteq> []" "last b \<noteq> 47"
  shows "dirname (path_join b n) = b"
proof -
  have pj: "path_join b n = b @ [47] @ n" using assms by (rule path_join_rel)
  have "dropWhile (\<lambda>c. c \<noteq> 47) (rev n @ 47 # rev b) = 47 # rev b"
    using assms(2) by (intro dropWhile_upto) auto
  then have head: "rev (dropWhile (\<lambda>c. c \<noteq> 47) (rev (path_join b n))) = b @ [47]"
    by (simp add: pj)
  have nall: "\<not> list_all (\<lambda>c. c = 47) (b @ [47])"
    using assms(3,4) last_in_set [of b] by (auto simp: list_all_iff)
  have "dropWhile (\<lambda>c. c = 47) (rev b) = rev b"
    using assms(3,4) by (simp add: dropWhile_id hd_rev)
  then have "rev (dropWhile (\<lambda>c. c = 47) (rev (b @ [47]))) = b" by simp
  with head nall show ?thesis by (simp add: dirname_def Let_def)
qed

lemma dirname_generated:
  "n \<noteq> [] \<Longrightarrow> 47 \<notin> set n \<Longrightarrow> dirname (path_join (generated_dir e) n) = generated_dir e"
  using generated_dir_ends [of e] by (simp add: dirname_join)

lemma words_distinct:
  "none_s \<noteq> save_file_s" "none_s \<noteq> send_email_s" "save_file_s \<noteq> send_email_s"
  "none_s \<noteq> []" "save_file_s \<noteq> []" "send_email_s \<noteq> []"
  "pdf_s \<noteq> docx_s" "pdf_s \<noteq> none_s" "docx_s \<noteq> none_s" "pdf_s \<noteq> []" "docx_s \<noteq> []"
  by (simp_all add: none_s_def save_file_s_def send_email_s_def pdf_s_def docx_s_def ascii_def)

lemmas words_distinct' = words_distinct [THEN not_sym]

lemma call_route_action_unset:
  "COLAB_API_BASE e = [] \<Longrightarrow>
     call_route_action e w c s =
       (Inr \<lparr>plan_action = none_s, plan_file_type = none_s, plan_email = []\<rparr>, w)"
  by (simp add: call_route_action_def)

lemma call_route_action_world:
  "COLAB_API_BASE e \<noteq> [] \<Longrightarrow> snd (call_route_action e w c s) = log_call (RouteAction c s) w"
  by (simp add: call_route_action_def Let_def split: sum.splits)

lemma classify_node_unset:
  "COLAB_API_BASE e = [] \<Longrightarrow>
     classify_node e w st =
       (st\<lparr>action := Some none_s, file_type := Some none_s, email := Some []\<rparr>, w)"
  by (simp add: classify_node_def call_route_action_unset)

lemma classify_node_world:
  "COLAB_API_BASE e \<noteq> [] \<Longrightarrow>
     snd (classify_node e w st) = log_call (RouteAction (command st) (bhc_di_ko st)) w"
  using call_route_action_world [of e w "command st" "bhc_di_ko st"]
  by (auto simp: classify_node_def split: prod.splits sum.splits)

lemma classify_node_keeps:
  "classify_node e w st = (st', w') \<Longrightarrow>
     command st' = command st \<and> bhc_di_ko st' = bhc_di_ko st \<and> bhc_di_en st' = bhc_di_en st
     \<and> file_path st' = file_path st"
  by (auto simp: classify_node_def split: prod.splits sum.splits)

lemma classified_inputs:
  "command (classified e w cmd ko en) = cmd" "bhc_di_ko (classified e w cmd ko en) = ko"
  "file_path (classified e w cmd ko en) = None"
  using classify_node_keeps [of e w "initial_state cmd ko en"
      "fst (classify_node e w (initial_state cmd ko en))"
      "snd (classify_node e w (initial_state cmd ko en))"]
  by (simp_all add: classified_def initial_state_def)

lemma run_classified:
  "run e w cmd ko en =
     chat_and_act_node e (after_classify e w cmd ko en) (classified e w cmd ko en)"
  by (simp add: run_def classified_def after_classify_def split: prod.splits)

text \<open>
  Claim C2: when the Korean summary is empty or only whitespace and the classified action
  is \<open>save_file\<close> or \<open>send_email\<close>, reply composition and execution are skipped:
  the result has action \<open>none\<close>, file type \<open>none\<close>, an empty e-mail address, an
  empty file path and the fixed notice as message, and the world is the one the
  classification call left (no reply request, no directory, no file, no mail).
\<close>

theorem guard_skips_reply_and_execution:
  assumes "strip summary_ko = []"
    and "action (classified e w cmd summary_ko summary_en) \<in> {Some save_file_s, Some send_email_s}"
  shows "\<exists>st. run e w cmd summary_ko summary_en = (Inr st, log_call (RouteAction cmd summary_ko) w)
           \<and> action st = Some none_s \<and> file_type st = Some none_s \<and> email st = Some []
           \<and> file_path st = Some [] \<and> result_message st = Some msg_no_summary"
proof -
  let ?st = "classified e w cmd summary_ko summary_en"
  have base: "COLAB_API_BASE e \<noteq> []"
  proof
    assume "COLAB_API_BASE e = []"
    then have "action ?st = Some none_s"
      by (simp add: classified_def classify_node_unset)
    with assms(2) show False by (simp add: words_distinct)
  qed
  then have w1: "after_classify e w cmd summary_ko summary_en = log_call (RouteAction cmd summary_ko) w"
    by (simp add: after_classify_def classify_node_world initial_state_def)
  from assms(2) have g: "get_or (action ?st) none_s \<in> set [save_file_s, send_email_s]"
    by (auto simp: get_or_def words_distinct)
  have "chat_and_act_node e (log_call (RouteAction cmd summary_ko) w) ?st =
      (Inr (returned ?st none_s none_s [] [] msg_no_summary), log_call (RouteAction cmd summary_ko) w)"
    using g assms(1) by (simp add: chat_and_act_node_def Let_def classified_inputs)
  then show ?thesis
    by (simp add: run_classified w1 returned_def)
qed

lemma guard_iff:
  "get_or (action st) none_s \<in> set [save_file_s, send_email_s]
     \<longleftrightarrow> action st \<in> {Some save_file_s, Some send_email_s}"
  by (auto simp: get_or_def words_distinct words_distinct' split: option.splits)

lemma makedirs_ok:
  "makedirs_error e p = None \<Longrightarrow>
     makedirs e w p = (Inr (), (log_call (Makedirs p) w)\<lparr>dirs := insert p (dirs w)\<rparr>)"
  by (simp add: makedirs_def log_call_def)

lemma makedirs_fail:
  "makedirs_error e p = Some x \<Longrightarrow> makedirs e w p = (Inl x, log_call (Makedirs p) w)"
  by (simp add: makedirs_def)

lemma produce_file_cases:
  assumes "pn \<noteq> []" "47 \<notin> set pn" "dn \<noteq> []" "47 \<notin> set dn"
    and "makedirs_error e (generated_dir e) = None"
  shows "produce_file e w ft bhc (generated_dir e) pn dn =
     (let fp = path_join (generated_dir e) (if ft = pdf_s then pn else dn);
          w2 = \<lparr>dirs = insert (generated_dir e) (dirs w), files = files w, outbox = outbox w,
                calls = calls w @ [Makedirs (generated_dir e),
                                   if ft = pdf_s then WritePdf fp else WriteDocx fp]\<rparr>
      in case (if ft = pdf_s then render_pdf e bhc fp else render_docx e bhc fp) of
           Inl x \<Rightarrow> (Inl x, w2)
         | Inr b \<Rightarrow> (Inr (if ft = pdf_s then pdf_s else docx_s, fp),
                      w2\<lparr>files := (files w)(fp \<mapsto> b)\<rparr>))"
  using assms
  by (simp add: produce_file_def create_pdf_file_def create_docx_file_def makedirs_ok
        dirname_generated log_call_def Let_def split: sum.splits)

lemmas chat_and_act_node_alt =
  chat_and_act_node_def [unfolded Let_def, folded generated_dir_def composed_def]

lemma artifact_names:
  "ascii ''discharge_summary.pdf'' \<noteq> []" "47 \<notin> set (ascii ''discharge_summary.pdf'')"
  "ascii ''discharge_summary.docx'' \<noteq> []" "47 \<notin> set (ascii ''discharge_summary.docx'')"
  "ascii ''discharge_summary_email.pdf'' \<noteq> []" "47 \<notin> set (ascii ''discharge_summary_email.pdf'')"
  "ascii ''discharge_summary_email.docx'' \<noteq> []" "47 \<notin> set (ascii ''discharge_summary_email.docx'')"
  by (simp_all add: ascii_def)

lemma chat_and_act_returns:
  assumes "artifact_io_ok e (bhc_di_ko st)"
  shows "\<exists>st'. fst (chat_and_act_node e w st) = Inr st' \<and> populated st'"
proof -
  obtain reply w1 where c: "composed e w st = (reply, w1)" by (cases "composed e w st")
  from assms have mk: "makedirs_error e (generated_dir e) = None"
    by (simp add: artifact_io_ok_def)
  show ?thesis
    using assms
    by (auto simp: chat_and_act_node_alt c makedirs_ok mk produce_file_cases artifact_names
          populated_def returned_def artifact_io_ok_def Let_def
          split: prod.splits sum.splits)
qed

lemma chat_and_act_raises:
  assumes "fst (chat_and_act_node e w st) = Inl x"
  shows "artifact_io_raises e (bhc_di_ko st) x"
proof -
  obtain reply w1 where c: "composed e w st = (reply, w1)" by (cases "composed e w st")
  show ?thesis
  proof (cases "makedirs_error e (generated_dir e)")
    case None
    with assms show ?thesis
      by (auto simp: chat_and_act_node_alt c makedirs_ok produce_file_cases artifact_names
            artifact_io_raises_def Let_def
            split: prod.splits sum.splits if_splits)
  next
    case (Some y)
    with assms show ?thesis
      by (auto simp: chat_and_act_node_alt c makedirs_fail artifact_io_raises_def
            split: if_splits)
  qed
qed

lemma chat_and_act_mkdir_fails:
  assumes "\<not> (action st \<in> {Some save_file_s, Some send_email_s} \<and> strip (bhc_di_ko st) = [])"
    and "makedirs_error e (generated_dir e) = Some x"
  shows "fst (chat_and_act_node e w st) = Inl x"
proof -
  obtain reply w1 where c: "composed e w st = (reply, w1)" by (cases "composed e w st")
  from assms(1) have g: "\<not> (get_or (action st) none_s \<in> set [save_file_s, send_email_s]
      \<and> strip (bhc_di_ko st) = [])"
    unfolding guard_iff .
  show ?thesis
    using g by (simp add: chat_and_act_node_alt c makedirs_fail assms(2))
qed

lemma composed_world:
  "snd (composed e w st) =
     (if COLAB_API_BASE e = [] then w
      else log_call (AgentChat (build_prompt (command st) (bhc_di_ko st)
             (get_or (action st) none_s) (lower (get_or (file_type st) none_s))
             (get_or (email st) []))) w)"
  by (simp add: composed_def call_agent_chat_for_reply_def Let_def split: sum.splits)

lemma composed_reply: "fst (composed e w st) = fst (composed e w' st)"
  by (simp add: composed_def call_agent_chat_for_reply_def Let_def split: sum.splits)

lemma dispatch_world:
  "\<exists>post. calls (snd (dispatch e w em fp r)) = calls w @ post
     \<and> dirs (snd (dispatch e w em fp r)) = dirs w
     \<and> files (snd (dispatch e w em fp r)) = files w"
  by (auto simp: dispatch_def read_file_def send_email_with_attachment_def log_call_def Let_def
        split: prod.splits sum.splits option.splits)

lemma path_join_nonempty: "n \<noteq> [] \<Longrightarrow> path_join b n \<noteq> []"
  by (auto simp: path_join_def)

lemma generated_join:
  "n \<noteq> [] \<Longrightarrow> 47 \<notin> set n \<Longrightarrow> path_join (generated_dir e) n = generated_dir e @ [47] @ n"
  using generated_dir_ends [of e] by (simp add: path_join_rel)

lemma artifact_paths_distinct:
  "path_join (generated_dir e) (ascii ''discharge_summary_email.pdf'')
     \<notin> {path_join (generated_dir e) (ascii ''discharge_summary.pdf''),
         path_join (generated_dir e) (ascii ''discharge_summary.docx'')}"
  "path_join (generated_dir e) (ascii ''discharge_summary_email.docx'')
     \<notin> {path_join (generated_dir e) (ascii ''discharge_summary.pdf''),
         path_join (generated_dir e) (ascii ''discharge_summary.docx'')}"
  by (simp_all add: generated_join artifact_names) (simp_all add: ascii_def)

lemma get_or_words:
  "get_or (Some send_email_s) none_s = send_email_s"
  "get_or (Some save_file_s) none_s = save_file_s"
  "get_or (Some none_s) none_s = none_s"
  "get_or (Some []) d = d"
  "em \<noteq> [] \<Longrightarrow> get_or (Some em) d = em"
  by (simp_all add: get_or_def words_distinct)

lemma node_email_without_address:
  assumes "action st = Some send_email_s" "email st = Some []"
    and "strip (bhc_di_ko st) \<noteq> []" "artifact_io_ok e (bhc_di_ko st)"
  shows "\<exists>st' w' fp b wr. chat_and_act_node e w st = (Inr st', w')
     \<and> action st' = Some send_email_s \<and> email st' = Some []
     \<and> file_path st' = Some fp
     \<and> fp \<in> {path_join (generated_dir e) (ascii ''discharge_summary_email.pdf''),
              path_join (generated_dir e) (ascii ''discharge_summary_email.docx'')}
     \<and> files w' fp = Some b
     \<and> result_message st' = Some (fst (composed e w st) @ warn_no_address)
     \<and> outbox w' = outbox (snd (composed e w st))
     \<and> calls w' = calls (snd (composed e w st))
          @ [Makedirs (generated_dir e), Makedirs (generated_dir e), wr]
     \<and> wr \<in> {WritePdf fp, WriteDocx fp}"
proof -
  obtain reply w1 where c: "composed e w st = (reply, w1)" by (cases "composed e w st")
  from assms have mk: "makedirs_error e (generated_dir e) = None"
    by (simp add: artifact_io_ok_def)
  show ?thesis
    using assms
    by (auto simp: chat_and_act_node_alt c makedirs_ok mk produce_file_cases artifact_names
          returned_def artifact_io_ok_def Let_def get_or_words words_distinct words_distinct'
          log_call_def
          split: prod.splits sum.splits)
qed

lemma classified_base:
  "action (classified e w cmd ko en) \<noteq> Some none_s \<Longrightarrow> COLAB_API_BASE e \<noteq> []"
  by (auto simp: classified_def classify_node_unset)

lemma after_classify_world:
  "COLAB_API_BASE e \<noteq> [] \<Longrightarrow>
     after_classify e w cmd ko en = log_call (RouteAction cmd ko) w"
  by (simp add: after_classify_def classify_node_world initial_state_def)

lemma sample_classified:
  assumes "a \<in> {none_s, save_file_s, send_email_s}" "f \<in> {pdf_s, docx_s}"
  shows "classified (sample_env (Inr (route_json a f m)) mk u) w cmd ko en =
     (initial_state cmd ko en)\<lparr>action := Some a, file_type := Some f, email := Some (strip m)\<rparr>"
proof -
  have keys: "ascii ''action'' \<noteq> ascii ''file_type''" "ascii ''action'' \<noteq> ascii ''email''"
    "ascii ''file_type'' \<noteq> ascii ''email''" "ascii ''http://colab'' \<noteq> []"
    by (simp_all add: ascii_def)
  have e0: "strip [] = []" by (simp add: strip_def)
  have "normalize_plan (route_json a f m) =
      Inr \<lparr>plan_action = a, plan_file_type = f, plan_email = strip m\<rparr>"
    using assms
    by (auto simp: normalize_plan_def route_json_def dict_get_def or_empty_strip_def keys
          keys [THEN not_sym] e0 Let_def words_distinct words_distinct')
  then show ?thesis
    by (simp add: classified_def classify_node_def call_route_action_def sample_env_def keys
          Let_def)
qed

text \<open>
  Claim C7: when the classified action is \<open>send_email\<close>, the summary is not blank and
  the address is empty, and the directory and the artifact can be written, no dispatch
  is attempted (the calls made are the two remote requests, the directory creations and
  the one file write; the outbox is unchanged), the artifact is written at the e-mail
  artifact path, which differs from both paths of the save action, that path is returned
  non-empty, and the message ends with the warning that nothing was sent.
\<close>

theorem email_without_address:
  assumes "action (classified e w cmd summary_ko summary_en) = Some send_email_s"
    and "email (classified e w cmd summary_ko summary_en) = Some []"
    and "strip summary_ko \<noteq> []"
    and "artifact_io_ok e summary_ko"
  shows "\<exists>st w' fp b reply prompt wr. run e w cmd summary_ko summary_en = (Inr st, w')
     \<and> action st = Some send_email_s \<and> email st = Some []
     \<and> file_path st = Some fp \<and> fp \<noteq> []
     \<and> fp \<in> {path_join (generated_dir e) (ascii ''discharge_summary_email.pdf''),
              path_join (generated_dir e) (ascii ''discharge_summary_email.docx'')}
     \<and> fp \<notin> {path_join (generated_dir e) (ascii ''discharge_summary.pdf''),
              path_join (generated_dir e) (ascii ''discharge_summary.docx'')}
     \<and> files w' fp = Some b
     \<and> result_message st = Some (reply @ warn_no_address)
     \<and> outbox w' = outbox w
     \<and> calls w' = calls w @ [RouteAction cmd summary_ko, AgentChat prompt,
          Makedirs (generated_dir e), Makedirs (generated_dir e), wr]
     \<and> wr \<in> {WritePdf fp, WriteDocx fp}"
proof -
  let ?st = "classified e w cmd summary_ko summary_en"
  let ?w1 = "log_call (RouteAction cmd summary_ko) w"
  from assms(1) have base: "COLAB_API_BASE e \<noteq> []"
    by (intro classified_base [of e w cmd summary_ko summary_en]) (simp add: words_distinct')
  then have w1: "after_classify e w cmd summary_ko summary_en = ?w1"
    by (rule after_classify_world)
  obtain prompt where cw: "snd (composed e ?w1 ?st) = log_call (AgentChat prompt) ?w1"
    using base by (simp add: composed_world)
  from node_email_without_address [of ?st e ?w1] assms
  obtain st' w' fp b wr where r: "chat_and_act_node e ?w1 ?st = (Inr st', w')"
    and st': "action st' = Some send_email_s" "email st' = Some []" "file_path st' = Some fp"
      "result_message st' = Some (fst (composed e ?w1 ?st) @ warn_no_address)"
    and fp: "fp \<in> {path_join (generated_dir e) (ascii ''discharge_summary_email.pdf''),
              path_join (generated_dir e) (ascii ''discharge_summary_email.docx'')}"
    and w': "files w' fp = Some b" "outbox w' = outbox (snd (composed e ?w1 ?st))"
      "calls w' = calls (snd (composed e ?w1 ?st))
          @ [Makedirs (generated_dir e), Makedirs (generated_dir e), wr]"
      "wr \<in> {WritePdf fp, WriteDocx fp}"
    by (auto simp: classified_inputs)
  from fp have ne: "fp \<noteq> []"
    by (auto simp: path_join_nonempty [THEN not_sym] path_join_nonempty artifact_names)
  from fp have other: "fp \<notin> {path_join (generated_dir e) (ascii ''discharge_summary.pdf''),
              path_join (generated_dir e) (ascii ''discharge_summary.docx'')}"
    using artifact_paths_distinct [of e] by auto
  have run: "run e w cmd summary_ko summary_en = (Inr st', w')"
    by (simp add: run_classified w1 r)
  have ob: "outbox w' = outbox w" and cl: "calls w' = calls w @ [RouteAction cmd summary_ko,
      AgentChat prompt, Makedirs (generated_dir e), Makedirs (generated_dir e), wr]"
    using w' (2,3) [unfolded cw] by (simp_all add: log_call_def)
  from run st' ne fp other w'(1,4) ob cl show ?thesis by blast
qed

theorem email_without_address_witness:
  "\<exists>st w' fp b reply. run (sample_env (Inr (route_json send_email_s pdf_s [])) None None) world0
         (ascii ''mail it'') stable_ko [] = (Inr st, w')
     \<and> file_path st = Some fp \<and> fp \<noteq> [] \<and> files w' fp = Some b
     \<and> result_message st = Some (reply @ warn_no_address) \<and> outbox w' = []"
proof -
  let ?e = "sample_env (Inr (route_json send_email_s pdf_s [])) None None"
  have e0: "strip [] = []" by (simp add: strip_def)
  have c: "classified ?e world0 (ascii ''mail it'') stable_ko [] =
      (initial_state (ascii ''mail it'') stable_ko [])\<lparr>action := Some send_email_s,
         file_type := Some pdf_s, email := Some []\<rparr>"
    using sample_classified [of send_email_s pdf_s "[]"] by (simp add: e0)
  have h1: "action (classified ?e world0 (ascii ''mail it'') stable_ko []) = Some send_email_s"
    and h2: "email (classified ?e world0 (ascii ''mail it'') stable_ko []) = Some []"
    by (simp_all add: c)
  have h3: "strip stable_ko \<noteq> []"
    by (simp add: strip_def stable_ko_def isspace_def)
  have h4: "artifact_io_ok ?e stable_ko"
    by (simp add: artifact_io_ok_def sample_env_def)
  from email_without_address [OF h1 h2 h3 h4] show ?thesis
    by (auto simp: world0_def)
qed

theorem guard_skips_reply_and_execution_witness:
  "\<exists>st. run (sample_env (Inr (route_json save_file_s pdf_s [])) None None) world0
         (ascii ''make a pdf'') (ascii ''   '') [] =
       (Inr st, \<lparr>dirs = {}, files = Map.empty, outbox = [],
                 calls = [RouteAction (ascii ''make a pdf'') (ascii ''   '')]\<rparr>)
     \<and> action st = Some none_s \<and> file_type st = Some none_s \<and> email st = Some []
     \<and> file_path st = Some [] \<and> result_message st = Some msg_no_summary"
proof -
  let ?e = "sample_env (Inr (route_json save_file_s pdf_s [])) None None"
  have h1: "strip (ascii ''   '') = []"
    by (simp add: strip_def ascii_def isspace_def)
  have h2: "action (classified ?e world0 (ascii ''make a pdf'') (ascii ''   '') [])
      \<in> {Some save_file_s, Some send_email_s}"
    using sample_classified [of save_file_s pdf_s "[]"] by simp
  from guard_skips_reply_and_execution [OF h1 h2] show ?thesis
    by (simp add: log_call_def world0_def)
qed

text \<open>
  Claim C1 as stated fails: with the classifier answering \<open>save_file\<close>, a summary
  present and directory creation refused, the exception leaves the run.
\<close>

theorem directory_failure_leaves_run:
  "fst (run (sample_env (Inr (route_json save_file_s pdf_s []))
               (Some (Exn (ascii ''[Errno 13] Permission denied''))) None)
          world0 (ascii ''make a pdf'') stable_ko [])
     = Inl (Exn (ascii ''[Errno 13] Permission denied''))"
proof -
  let ?e = "sample_env (Inr (route_json save_file_s pdf_s []))
               (Some (Exn (ascii ''[Errno 13] Permission denied''))) None"
  have h: "strip stable_ko \<noteq> []"
    by (simp add: strip_def stable_ko_def isspace_def)
  have m: "makedirs_error ?e (generated_dir ?e) = Some (Exn (ascii ''[Errno 13] Permission denied''))"
    by (simp add: sample_env_def)
  show ?thesis
    unfolding run_classified
    by (rule chat_and_act_mkdir_fails) (simp_all add: classified_inputs h m)
qed

lemma extends_refl: "extends w w"
  by (simp add: extends_def)

lemma extends_trans: "extends a b \<Longrightarrow> extends b c \<Longrightarrow> extends a c"
  by (auto simp: extends_def)

lemma makedirs_ext: "makedirs e w p = (r, w') \<Longrightarrow> extends w w'"
  by (auto simp: makedirs_def log_call_def extends_def Let_def split: option.splits)

lemma create_pdf_ext: "create_pdf_file e w t p = (r, w') \<Longrightarrow> extends w w'"
  by (auto simp: create_pdf_file_def makedirs_def log_call_def extends_def Let_def
        split: option.splits sum.splits)

lemma create_docx_ext: "create_docx_file e w t p = (r, w') \<Longrightarrow> extends w w'"
  by (auto simp: create_docx_file_def makedirs_def log_call_def extends_def Let_def
        split: option.splits sum.splits)

lemma produce_file_ext: "produce_file e w ft bhc d pn dn = (r, w') \<Longrightarrow> extends w w'"
  by (auto simp: produce_file_def Let_def split: if_splits prod.splits sum.splits
        dest: create_pdf_ext create_docx_ext)

lemma dispatch_ext: "dispatch e w em fp r = (m, w') \<Longrightarrow> extends w w'"
  using dispatch_world [of e w em fp r] by (auto simp: extends_def)

lemma node_world_ext:
  assumes "\<not> (action st \<in> {Some save_file_s, Some send_email_s} \<and> strip (bhc_di_ko st) = [])"
    and "makedirs_error e (generated_dir e) = None"
  shows "extends ((log_call (Makedirs (generated_dir e)) (snd (composed e w st)))
            \<lparr>dirs := insert (generated_dir e) (dirs (snd (composed e w st)))\<rparr>)
          (snd (chat_and_act_node e w st))"
proof -
  obtain reply w1 where c: "composed e w st = (reply, w1)" by (cases "composed e w st")
  from assms(1) have g: "\<not> (get_or (action st) none_s \<in> set [save_file_s, send_email_s]
      \<and> strip (bhc_di_ko st) = [])"
    unfolding guard_iff .
  let ?w2 = "(log_call (Makedirs (generated_dir e)) w1)\<lparr>dirs := insert (generated_dir e) (dirs w1)\<rparr>"
  have "extends ?w2 (snd (chat_and_act_node e w st))"
    unfolding chat_and_act_node_alt
    using g
    by (simp only: if_False c prod.case makedirs_ok [OF assms(2)] sum.case)
      (auto simp: extends_refl split: prod.splits sum.splits
         dest!: produce_file_ext dispatch_ext intro: extends_trans)
  then show ?thesis by (simp add: c)
qed

lemma node_mkdir_fails:
  assumes "\<not> (action st \<in> {Some save_file_s, Some send_email_s} \<and> strip (bhc_di_ko st) = [])"
    and "makedirs_error e (generated_dir e) = Some x"
  shows "chat_and_act_node e w st =
     (Inl x, log_call (Makedirs (generated_dir e)) (snd (composed e w st)))"
proof -
  obtain reply w1 where c: "composed e w st = (reply, w1)" by (cases "composed e w st")
  from assms(1) have g: "\<not> (get_or (action st) none_s \<in> set [save_file_s, send_email_s]
      \<and> strip (bhc_di_ko st) = [])"
    unfolding guard_iff .
  show ?thesis
    using g by (simp add: chat_and_act_node_alt c makedirs_fail assms(2))
qed

lemma node_chat_only:
  assumes "action st = Some none_s" and "makedirs_error e (generated_dir e) = None"
  shows "chat_and_act_node e w st =
     (Inr (returned st none_s (lower (get_or (file_type st) none_s)) (get_or (email st) []) []
             (fst (composed e w st))),
      (log_call (Makedirs (generated_dir e)) (snd (composed e w st)))
        \<lparr>dirs := insert (generated_dir e) (dirs (snd (composed e w st)))\<rparr>)"
proof -
  obtain reply w1 where c: "composed e w st = (reply, w1)" by (cases "composed e w st")
  have a: "get_or (action st) none_s = none_s"
    using assms(1) by (simp add: get_or_words)
  have g: "\<not> (none_s \<in> set [save_file_s, send_email_s] \<and> strip (bhc_di_ko st) = [])"
    by (simp add: words_distinct)
  show ?thesis
    unfolding chat_and_act_node_alt a
    by (simp only: g if_False c prod.case makedirs_ok [OF assms(2)] sum.case words_distinct
          fst_conv snd_conv simp_thms)
qed

lemma remote_calls_before:
  "\<exists>pre. calls (snd (composed e (after_classify e w cmd ko en) st)) = calls w @ pre
     \<and> list_all is_remote pre
     \<and> files (snd (composed e (after_classify e w cmd ko en) st)) = files w
     \<and> dirs (snd (composed e (after_classify e w cmd ko en) st)) = dirs w"
proof (cases "COLAB_API_BASE e = []")
  case True
  then show ?thesis
    by (simp add: composed_world after_classify_def classify_node_unset)
next
  case False
  then show ?thesis
    by (simp add: composed_world after_classify_world log_call_def)
qed

text \<open>
  Claim C10: on every invocation that passes the guard, also a pure chat turn, the
  output directory is created before the branch on the action. The calls made up to
  the one to \<^verbatim>\<open>os.makedirs\<close> on the output directory are remote requests only;
  when that call succeeds the directory exists in the final world, whatever happens
  afterwards; and on a chat turn (action \<open>none\<close>) the result has an empty file path
  and no file has been written, although the directory was created.
\<close>

theorem output_directory_created_before_branching:
  assumes "\<not> guard_fires e w cmd summary_ko summary_en"
  shows "(\<exists>pre post. calls (snd (run e w cmd summary_ko summary_en))
              = calls w @ pre @ Makedirs (generated_dir e) # post
            \<and> list_all is_remote pre)
     \<and> (makedirs_error e (generated_dir e) = None
          \<longrightarrow> generated_dir e \<in> dirs (snd (run e w cmd summary_ko summary_en)))
     \<and> (makedirs_error e (generated_dir e) = None
          \<and> action (classified e w cmd summary_ko summary_en) = Some none_s
          \<longrightarrow> (\<exists>st. fst (run e w cmd summary_ko summary_en) = Inr st
                 \<and> action st = Some none_s \<and> file_path st = Some []
                 \<and> files (snd (run e w cmd summary_ko summary_en)) = files w))"
proof -
  let ?st = "classified e w cmd summary_ko summary_en"
  let ?w0 = "after_classify e w cmd summary_ko summary_en"
  let ?w1 = "snd (composed e ?w0 ?st)"
  let ?g = "generated_dir e"
  from assms have g: "\<not> (action ?st \<in> {Some save_file_s, Some send_email_s}
      \<and> strip (bhc_di_ko ?st) = [])"
    by (simp add: guard_fires_def classified_inputs)
  obtain pre where pre: "calls ?w1 = calls w @ pre" "list_all is_remote pre"
    and fw: "files ?w1 = files w"
    using remote_calls_before [of e w cmd summary_ko summary_en ?st] by blast
  have run: "run e w cmd summary_ko summary_en = chat_and_act_node e ?w0 ?st"
    by (rule run_classified)
  have calls: "\<exists>post. calls (snd (run e w cmd summary_ko summary_en))
      = calls w @ pre @ Makedirs ?g # post"
  proof (cases "makedirs_error e ?g")
    case None
    from node_world_ext [OF g None, of ?w0]
    obtain post where "calls (snd (chat_and_act_node e ?w0 ?st)) =
        calls ((log_call (Makedirs ?g) ?w1)\<lparr>dirs := insert ?g (dirs ?w1)\<rparr>) @ post"
      unfolding extends_def by blast
    then show ?thesis by (simp add: run log_call_def pre)
  next
    case (Some x)
    show ?thesis
      by (simp add: run node_mkdir_fails [OF g Some] log_call_def pre)
  qed
  have dir: "?g \<in> dirs (snd (run e w cmd summary_ko summary_en))"
    if "makedirs_error e ?g = None"
    using node_world_ext [OF g that, of ?w0] by (auto simp: extends_def run log_call_def)
  have chat: "\<exists>st. fst (run e w cmd summary_ko summary_en) = Inr st
                 \<and> action st = Some none_s \<and> file_path st = Some []
                 \<and> files (snd (run e w cmd summary_ko summary_en)) = files w"
    if "makedirs_error e ?g = None" "action ?st = Some none_s"
    by (simp add: run node_chat_only [OF that(2,1)] returned_def log_call_def fw)
  from calls pre(2) dir chat show ?thesis by blast
qed

theorem output_directory_created_before_branching_witness:
  "(\<exists>pre post.
       calls (snd (run (sample_env (Inr (route_json none_s docx_s [])) None None) world0
                     (ascii ''hello'') [] []))
         = calls world0 @ pre
             @ Makedirs (generated_dir (sample_env (Inr (route_json none_s docx_s [])) None None))
             # post
       \<and> list_all is_remote pre)
   \<and> generated_dir (sample_env (Inr (route_json none_s docx_s [])) None None)
       \<in> dirs (snd (run (sample_env (Inr (route_json none_s docx_s [])) None None) world0
                       (ascii ''hello'') [] []))
   \<and> (\<exists>st. fst (run (sample_env (Inr (route_json none_s docx_s [])) None None) world0
                   (ascii ''hello'') [] []) = Inr st
          \<and> action st = Some none_s \<and> file_path st = Some []
          \<and> files (snd (run (sample_env (Inr (route_json none_s docx_s [])) None None) world0
                          (ascii ''hello'') [] [])) = files world0)"
proof -
  let ?e = "sample_env (Inr (route_json none_s docx_s [])) None None"
  have e0: "strip [] = []" by (simp add: strip_def)
  have cl: "classified ?e world0 (ascii ''hello'') [] [] =
      (initial_state (ascii ''hello'') [] [])\<lparr>action := Some none_s, file_type := Some docx_s,
         email := Some []\<rparr>"
    using sample_classified [of none_s docx_s "[]"] by (simp add: e0)
  have ng: "\<not> guard_fires ?e world0 (ascii ''hello'') [] []"
    by (simp add: guard_fires_def cl words_distinct)
  have mk: "makedirs_error ?e (generated_dir ?e) = None"
    by (simp add: sample_env_def)
  have an: "action (classified ?e world0 (ascii ''hello'') [] []) = Some none_s"
    by (simp add: cl)
  from output_directory_created_before_branching [OF ng] mk an show ?thesis by blast
qed

lemma reply_any_world:
  "fst (call_agent_chat_for_reply e w c b a f m) = fst (call_agent_chat_for_reply e w' c b a f m)"
  by (simp add: call_agent_chat_for_reply_def Let_def split: sum.splits)

lemma lower_words: "lower docx_s = docx_s" "lower none_s = none_s" "lower pdf_s = pdf_s"
  by (simp_all add: lower_def docx_s_def none_s_def pdf_s_def ascii_def)

lemma classify_transport_failure:
  assumes "COLAB_API_BASE e \<noteq> []" "post_route_action e cmd ko = Inl x"
  shows "classify_node e w (initial_state cmd ko en) =
     ((initial_state cmd ko en)\<lparr>action := Some none_s, file_type := Some docx_s,
        email := Some []\<rparr>,
      log_call (RouteAction cmd ko) w)"
  using assms
  by (simp add: classify_node_def call_route_action_def initial_state_def Let_def)

lemma classify_malformed_response:
  assumes "COLAB_API_BASE e \<noteq> []" "post_route_action e cmd ko = Inr data"
    and "normalize_plan data = Inl x"
  shows "classify_node e w (initial_state cmd ko en) =
     ((initial_state cmd ko en)\<lparr>action := Some none_s, file_type := Some none_s,
        email := Some [], result_message := Some (msg_classify_error @ exn_text x)\<rparr>,
      log_call (RouteAction cmd ko) w)"
  using assms
  by (simp add: classify_node_def call_route_action_def initial_state_def Let_def)

lemma run_chat_only:
  assumes "classify_node e w (initial_state cmd ko en) = (st, log_call (RouteAction cmd ko) w)"
    and "COLAB_API_BASE e \<noteq> []"
    and "action st = Some none_s" "file_type st = Some f" "lower f = f" "f \<noteq> []"
    and "email st = Some []"
    and "makedirs_error e (generated_dir e) = None"
  shows "run e w cmd ko en =
     (Inr (returned st none_s f [] []
             (fst (call_agent_chat_for_reply e w cmd ko none_s f []))),
      \<lparr>dirs = insert (generated_dir e) (dirs w), files = files w, outbox = outbox w,
       calls = calls w @ [RouteAction cmd ko, AgentChat (build_prompt cmd ko none_s f []),
                          Makedirs (generated_dir e)]\<rparr>)"
proof -
  have k: "command st = cmd" "bhc_di_ko st = ko"
    using classify_node_keeps [OF assms(1)] by (simp_all add: initial_state_def)
  have comp: "composed e (log_call (RouteAction cmd ko) w) st =
      call_agent_chat_for_reply e (log_call (RouteAction cmd ko) w) cmd ko none_s f []"
    by (simp add: composed_def k assms(3-7) get_or_words)
  have w: "snd (call_agent_chat_for_reply e (log_call (RouteAction cmd ko) w) cmd ko none_s f []) =
      log_call (AgentChat (build_prompt cmd ko none_s f [])) (log_call (RouteAction cmd ko) w)"
    using assms(2)
    by (simp add: call_agent_chat_for_reply_def Let_def split: sum.splits)
  have r: "fst (call_agent_chat_for_reply e (log_call (RouteAction cmd ko) w) cmd ko none_s f []) =
      fst (call_agent_chat_for_reply e w cmd ko none_s f [])"
    by (rule reply_any_world)
  have f: "lower (get_or (file_type st) none_s) = f" "get_or (email st) [] = []"
    by (simp_all add: assms(4-7) get_or_words)
  note node = node_chat_only [OF assms(3,8), of "log_call (RouteAction cmd ko) w",
      unfolded comp w r f]
  have "run e w cmd ko en = chat_and_act_node e (log_call (RouteAction cmd ko) w) st"
    by (simp add: run_def assms(1))
  then show ?thesis
    unfolding node by (simp add: log_call_def)
qed

text \<open>
  Claim C9, as the code has it: a failure of the classification request (transport or
  decoding) is caught inside \<^verbatim>\<open>_call_route_action\<close>, which returns the plan
  \<open>none\<close>, \<open>docx\<close>, empty address and no error text; a response that cannot be
  normalised makes \<^verbatim>\<open>classify_node\<close> set an error text. In both cases the graph
  goes on to \<^verbatim>\<open>chat_and_act_node\<close>: the reply is requested, the output directory is
  created, and (when that succeeds) the result has action \<open>none\<close>, an empty file path and
  the composed reply as message, which replaces any error text.
\<close>

theorem classification_failure_degrades_to_chat:
  "(COLAB_API_BASE e \<noteq> [] \<and> post_route_action e cmd summary_ko = Inl x \<longrightarrow>
      classified e w cmd summary_ko summary_en =
        (initial_state cmd summary_ko summary_en)\<lparr>action := Some none_s,
           file_type := Some docx_s, email := Some []\<rparr>
      \<and> (makedirs_error e (generated_dir e) = None \<longrightarrow>
           run e w cmd summary_ko summary_en =
             (Inr (returned (initial_state cmd summary_ko summary_en) none_s docx_s [] []
                     (fst (call_agent_chat_for_reply e w cmd summary_ko none_s docx_s []))),
              \<lparr>dirs = insert (generated_dir e) (dirs w), files = files w, outbox = outbox w,
               calls = calls w @ [RouteAction cmd summary_ko,
                 AgentChat (build_prompt cmd summary_ko none_s docx_s []),
                 Makedirs (generated_dir e)]\<rparr>)))
   \<and> (COLAB_API_BASE e \<noteq> [] \<and> post_route_action e cmd summary_ko = Inr data
        \<and> normalize_plan data = Inl x \<longrightarrow>
      result_message (classified e w cmd summary_ko summary_en)
        = Some (msg_classify_error @ exn_text x)
      \<and> (makedirs_error e (generated_dir e) = None \<longrightarrow>
           run e w cmd summary_ko summary_en =
             (Inr (returned (initial_state cmd summary_ko summary_en) none_s none_s [] []
                     (fst (call_agent_chat_for_reply e w cmd summary_ko none_s none_s []))),
              \<lparr>dirs = insert (generated_dir e) (dirs w), files = files w, outbox = outbox w,
               calls = calls w @ [RouteAction cmd summary_ko,
                 AgentChat (build_prompt cmd summary_ko none_s none_s []),
                 Makedirs (generated_dir e)]\<rparr>)))"
proof (intro conjI impI)
  assume a: "COLAB_API_BASE e \<noteq> [] \<and> post_route_action e cmd summary_ko = Inl x"
  then have c: "classify_node e w (initial_state cmd summary_ko summary_en) =
     ((initial_state cmd summary_ko summary_en)\<lparr>action := Some none_s, file_type := Some docx_s,
        email := Some []\<rparr>,
      log_call (RouteAction cmd summary_ko) w)"
    by (simp add: classify_transport_failure)
  then show "classified e w cmd summary_ko summary_en =
        (initial_state cmd summary_ko summary_en)\<lparr>action := Some none_s,
           file_type := Some docx_s, email := Some []\<rparr>"
    by (simp add: classified_def)
  assume mk: "makedirs_error e (generated_dir e) = None"
  show "run e w cmd summary_ko summary_en =
             (Inr (returned (initial_state cmd summary_ko summary_en) none_s docx_s [] []
                     (fst (call_agent_chat_for_reply e w cmd summary_ko none_s docx_s []))),
              \<lparr>dirs = insert (generated_dir e) (dirs w), files = files w, outbox = outbox w,
               calls = calls w @ [RouteAction cmd summary_ko,
                 AgentChat (build_prompt cmd summary_ko none_s docx_s []),
                 Makedirs (generated_dir e)]\<rparr>)"
    using a mk
    by (subst run_chat_only [OF c, of docx_s])
      (simp_all add: lower_words words_distinct returned_def)
next
  assume a: "COLAB_API_BASE e \<noteq> [] \<and> post_route_action e cmd summary_ko = Inr data
        \<and> normalize_plan data = Inl x"
  then have c: "classify_node e w (initial_state cmd summary_ko summary_en) =
     ((initial_state cmd summary_ko summary_en)\<lparr>action := Some none_s, file_type := Some none_s,
        email := Some [], result_message := Some (msg_classify_error @ exn_text x)\<rparr>,
      log_call (RouteAction cmd summary_ko) w)"
    by (simp add: classify_malformed_response)
  then show "result_message (classified e w cmd summary_ko summary_en)
        = Some (msg_classify_error @ exn_text x)"
    by (simp add: classified_def)
  assume mk: "makedirs_error e (generated_dir e) = None"
  show "run e w cmd summary_ko summary_en =
             (Inr (returned (initial_state cmd summary_ko summary_en) none_s none_s [] []
                     (fst (call_agent_chat_for_reply e w cmd summary_ko none_s none_s []))),
              \<lparr>dirs = insert (generated_dir e) (dirs w), files = files w, outbox = outbox w,
               calls = calls w @ [RouteAction cmd summary_ko,
                 AgentChat (build_prompt cmd summary_ko none_s none_s []),
                 Makedirs (generated_dir e)]\<rparr>)"
    using a mk
    by (subst run_chat_only [OF c, of none_s])
      (simp_all add: lower_words words_distinct returned_def)
qed

lemma sample_reply:
  "fst (call_agent_chat_for_reply (sample_env r mk u) w c b a f m) = stable_ko"
proof -
  have k: "keep_korean_lines stable_ko = stable_ko"
    by (simp add: filter_eval)
  have s: "strip stable_ko = stable_ko"
    by (simp add: strip_def stable_ko_def isspace_def)
  have n: "stable_ko \<noteq> []" "ascii ''http://colab'' \<noteq> []"
    by (simp_all add: stable_ko_def ascii_def)
  show ?thesis
    by (simp add: call_agent_chat_for_reply_def sample_env_def Let_def dict_get_def
          or_empty_strip_def n s k)
qed

text \<open>
  Claim C9 as stated fails: with the classification request timing out and the reply
  generator answering in Korean, the message of the result is that reply, and the calls
  made include the reply request and the creation of the output directory.
\<close>

theorem failed_classification_still_chats:
  "post_route_action (sample_env (Inl (Exn (ascii ''timed out''))) None None)
       (ascii ''hello'') [] = Inl (Exn (ascii ''timed out''))
   \<and> run (sample_env (Inl (Exn (ascii ''timed out''))) None None) world0 (ascii ''hello'') [] []
     = (Inr (returned (initial_state (ascii ''hello'') [] []) none_s docx_s [] [] stable_ko),
        \<lparr>dirs = {generated_dir (sample_env (Inl (Exn (ascii ''timed out''))) None None)},
         files = Map.empty, outbox = [],
         calls = [RouteAction (ascii ''hello'') [],
           AgentChat (build_prompt (ascii ''hello'') [] none_s docx_s []),
           Makedirs (generated_dir (sample_env (Inl (Exn (ascii ''timed out''))) None None))]\<rparr>)"
proof -
  let ?e = "sample_env (Inl (Exn (ascii ''timed out''))) None None"
  have b: "COLAB_API_BASE ?e \<noteq> []" and p: "post_route_action ?e (ascii ''hello'') []
      = Inl (Exn (ascii ''timed out''))"
    and mk: "makedirs_error ?e (generated_dir ?e) = None"
    by (simp_all add: sample_env_def ascii_def)
  note c = classify_transport_failure [OF b p, of world0 "[]"]
  have "run ?e world0 (ascii ''hello'') [] [] =
      (Inr (returned ((initial_state (ascii ''hello'') [] [])\<lparr>action := Some none_s,
              file_type := Some docx_s, email := Some []\<rparr>) none_s docx_s [] []
             (fst (call_agent_chat_for_reply ?e world0 (ascii ''hello'') [] none_s docx_s []))),
      \<lparr>dirs = insert (generated_dir ?e) (dirs world0), files = files world0,
       outbox = outbox world0,
       calls = calls world0 @ [RouteAction (ascii ''hello'') [],
          AgentChat (build_prompt (ascii ''hello'') [] none_s docx_s []),
          Makedirs (generated_dir ?e)]\<rparr>)"
    by (rule run_chat_only [OF c b _ _ _ _ _ mk]) (simp_all add: lower_words words_distinct)
  then show ?thesis
    by (simp add: p sample_reply world0_def returned_def)
qed

theorem classification_failure_degrades_to_chat_witness:
  "result_message (fst (classify_node (sample_env (Inl (Exn (ascii ''timed out''))) None None)
       world0 (initial_state (ascii ''hello'') [] []))) = None
   \<and> fst (run (sample_env (Inl (Exn (ascii ''timed out''))) None None) world0
          (ascii ''hello'') [] [])
     = Inr (returned (initial_state (ascii ''hello'') [] []) none_s docx_s [] [] stable_ko)
   \<and> result_message (classified (sample_env (Inr (JArr [])) None None) world0
          (ascii ''hello'') [] [])
     = Some (msg_classify_error @ exn_text (attribute_error (JArr []) (ascii ''get'')))
   \<and> fst (run (sample_env (Inr (JArr [])) None None) world0 (ascii ''hello'') [] [])
     = Inr (returned (initial_state (ascii ''hello'') [] []) none_s none_s [] [] stable_ko)"
proof -
  let ?e = "sample_env (Inl (Exn (ascii ''timed out''))) None None"
  let ?m = "sample_env (Inr (JArr [])) None None"
  have h1: "COLAB_API_BASE ?e \<noteq> [] \<and> post_route_action ?e (ascii ''hello'') []
      = Inl (Exn (ascii ''timed out''))"
    and mk1: "makedirs_error ?e (generated_dir ?e) = None"
    by (simp_all add: sample_env_def ascii_def)
  have h2: "COLAB_API_BASE ?m \<noteq> [] \<and> post_route_action ?m (ascii ''hello'') [] = Inr (JArr [])
      \<and> normalize_plan (JArr []) = Inl (attribute_error (JArr []) (ascii ''get''))"
    and mk2: "makedirs_error ?m (generated_dir ?m) = None"
    by (simp_all add: sample_env_def ascii_def normalize_plan_def dict_get_def)
  note t1 = classification_failure_degrades_to_chat
    [of ?e "ascii ''hello''" "[]" "Exn (ascii ''timed out'')" world0 "[]"]
  note t2 = classification_failure_degrades_to_chat
    [of ?m "ascii ''hello''" "[]" "attribute_error (JArr []) (ascii ''get'')" world0 "[]" "JArr []"]
  from t1 h1 mk1 have a: "classified ?e world0 (ascii ''hello'') [] [] =
        (initial_state (ascii ''hello'') [] [])\<lparr>action := Some none_s,
           file_type := Some docx_s, email := Some []\<rparr>"
    and b: "fst (run ?e world0 (ascii ''hello'') [] [])
     = Inr (returned (initial_state (ascii ''hello'') [] []) none_s docx_s [] [] stable_ko)"
    by (simp_all add: sample_reply)
  from t2 h2 mk2 have c: "result_message (classified ?m world0 (ascii ''hello'') [] [])
     = Some (msg_classify_error @ exn_text (attribute_error (JArr []) (ascii ''get'')))"
    and d: "fst (run ?m world0 (ascii ''hello'') [] [])
     = Inr (returned (initial_state (ascii ''hello'') [] []) none_s none_s [] [] stable_ko)"
    by (simp_all add: sample_reply)
  from a have a': "result_message (fst (classify_node ?e world0
      (initial_state (ascii ''hello'') [] []))) = None"
    by (simp add: classified_def initial_state_def)
  from a' b c d show ?thesis by simp
qed

section \<open>The normalisation of every classifier response\<close>

lemma strip_Nil: "strip [] = []"
  by (simp add: strip_def)

lemma or_empty_strip_cases:
  "or_empty_strip v =
     (if truthy v \<and> \<not> is_str v then Inl (attribute_error v (ascii ''strip''))
      else Inr (case v of JStr s \<Rightarrow> strip s | _ \<Rightarrow> []))"
  by (cases v) (auto simp: or_empty_strip_def strip_Nil)

lemma normalize_object:
  "normalize_plan (JObj kvs) =
     (case map_of kvs (ascii ''email'') of
        Some v \<Rightarrow>
          if truthy v \<and> \<not> is_str v then Inl (attribute_error v (ascii ''strip''))
          else Inr (expected_plan kvs)
      | None \<Rightarrow> Inr (expected_plan kvs))"
proof (cases "map_of kvs (ascii ''email'')")
  case None
  then show ?thesis
    by (auto simp: normalize_plan_def dict_get_def Let_def or_empty_strip_cases expected_plan_def
          words_distinct words_distinct' split: option.splits json.splits)
next
  case (Some v)
  then show ?thesis
    by (cases v)
      (auto simp: normalize_plan_def dict_get_def Let_def or_empty_strip_cases expected_plan_def
          words_distinct words_distinct' split: option.splits json.splits)
qed

text \<open>
  Claim C3, as the code has it, for every decoded response. A response that is not an
  object raises \<^verbatim>\<open>AttributeError\<close> at \<^verbatim>\<open>data.get\<close>, and an object whose e-mail
  field is a true value other than a string raises it at \<^verbatim>\<open>.strip()\<close>: no plan is
  produced. For every other response the plan is \<open>expected_plan\<close>: an action outside
  \<open>none\<close>, \<open>save_file\<close>, \<open>send_email\<close> becomes \<open>none\<close>; a reported file type
  outside \<open>pdf\<close>, \<open>docx\<close> becomes \<open>docx\<close> when the normalised action is
  \<open>save_file\<close> or \<open>send_email\<close> and \<open>none\<close> when it is \<open>none\<close>, while an absent
  file type reads as \<open>docx\<close> whatever the action; the e-mail address is the trimmed
  reported string, empty when absent or false.
\<close>

theorem classifier_normalization:
  "normalize_plan data =
     (case data of
        JObj kvs \<Rightarrow>
          (case map_of kvs (ascii ''email'') of
             Some v \<Rightarrow>
               if truthy v \<and> \<not> is_str v then Inl (attribute_error v (ascii ''strip''))
               else Inr (expected_plan kvs)
           | None \<Rightarrow> Inr (expected_plan kvs))
      | _ \<Rightarrow> Inl (attribute_error data (ascii ''get'')))"
proof (cases data)
  case (JObj kvs)
  then show ?thesis by (simp add: normalize_object)
qed (simp_all add: normalize_plan_def dict_get_def)

theorem classifier_normalization_witness:
  "normalize_plan (route_json (ascii ''erase'') (ascii ''txt'') (ascii '' a@b.kr ''))
     = Inr \<lparr>plan_action = none_s, plan_file_type = none_s, plan_email = ascii ''a@b.kr''\<rparr>
   \<and> normalize_plan (route_json send_email_s (ascii ''txt'') [])
     = Inr \<lparr>plan_action = send_email_s, plan_file_type = docx_s, plan_email = []\<rparr>
   \<and> normalize_plan (JArr []) = Inl (attribute_error (JArr []) (ascii ''get''))"
proof -
  have k: "ascii ''action'' \<noteq> ascii ''file_type''" "ascii ''action'' \<noteq> ascii ''email''"
    "ascii ''file_type'' \<noteq> ascii ''email''"
    by (simp_all add: ascii_def)
  have s: "strip (ascii '' a@b.kr '') = ascii ''a@b.kr''"
    by (simp add: strip_def ascii_def isspace_def)
  have w: "ascii ''erase'' \<notin> set [none_s, save_file_s, send_email_s]"
    "JStr (ascii ''txt'') \<noteq> JStr pdf_s" "JStr (ascii ''txt'') \<noteq> JStr docx_s"
    by (simp_all add: ascii_def none_s_def save_file_s_def send_email_s_def pdf_s_def docx_s_def)
  have a: "normalize_plan (route_json (ascii ''erase'') (ascii ''txt'') (ascii '' a@b.kr ''))
     = Inr \<lparr>plan_action = none_s, plan_file_type = none_s, plan_email = ascii ''a@b.kr''\<rparr>"
    unfolding route_json_def classifier_normalization
    using w by (simp add: expected_plan_def k k [THEN not_sym] s Let_def)
  have b: "normalize_plan (route_json send_email_s (ascii ''txt'') [])
     = Inr \<lparr>plan_action = send_email_s, plan_file_type = docx_s, plan_email = []\<rparr>"
    unfolding route_json_def classifier_normalization
    using w by (simp add: expected_plan_def k k [THEN not_sym] strip_Nil Let_def words_distinct
        words_distinct')
  have c: "normalize_plan (JArr []) = Inl (attribute_error (JArr []) (ascii ''get''))"
    unfolding classifier_normalization by simp
  from a b c show ?thesis by simp
qed

text \<open>
  Claim C3 as stated fails: a response that asks to save a PDF and reports the number
  123 as address is given no plan, the normalisation raising \<^verbatim>\<open>AttributeError\<close>;
  and a response with the action \<open>none\<close> and no file type is given the file type
  \<open>docx\<close>, not \<open>none\<close>.
\<close>

theorem numeric_email_yields_no_plan:
  "normalize_plan (JObj [(ascii ''action'', JStr save_file_s), (ascii ''file_type'', JStr pdf_s),
       (ascii ''email'', JNum 123)])
     = Inl (attribute_error (JNum 123) (ascii ''strip''))
   \<and> normalize_plan (JObj [(ascii ''action'', JStr none_s)])
     = Inr \<lparr>plan_action = none_s, plan_file_type = docx_s, plan_email = []\<rparr>"
proof -
  have k: "ascii ''action'' \<noteq> ascii ''file_type''" "ascii ''action'' \<noteq> ascii ''email''"
    "ascii ''file_type'' \<noteq> ascii ''email''"
    by (simp_all add: ascii_def)
  show ?thesis
    by (simp add: normalize_plan_def dict_get_def or_empty_strip_def Let_def k k [THEN not_sym]
          words_distinct words_distinct' strip_Nil)
qed

section \<open>The node, branch by branch\<close>

lemma action_word:
  "get_or (action st) none_s = save_file_s \<longleftrightarrow> action st = Some save_file_s"
  "get_or (action st) none_s = send_email_s \<longleftrightarrow> action st = Some send_email_s"
  by (auto simp: get_or_def words_distinct words_distinct' split: option.splits)

lemma dispatch_failed:
  assumes "files w fp = Some b" "dispatch_error e em fp b = Some x"
  shows "dispatch e w em fp r =
     (r @ warn_send_error @ exn_text x @ ascii '')'',
      w\<lparr>calls := calls w @ ReadFile fp
                    # (if read_error e fp = None then [SendEmail em] else [])\<rparr>)"
  using assms
  by (auto simp: dispatch_def dispatch_error_def read_file_def send_email_with_attachment_def
        log_call_def Let_def split: option.splits if_splits)

lemma returned_classify:
  "returned (fst (classify_node e w st)) a f m p r = returned st a f m p r"
  by (simp add: classify_node_def returned_def split: prod.splits sum.splits)

lemma returned_classified:
  "returned (classified e w cmd ko en) a f m p r = returned (initial_state cmd ko en) a f m p r"
  by (simp add: classified_def returned_classify)

lemma produce_file_at:
  assumes "pn \<noteq> []" "47 \<notin> set pn" "dn \<noteq> []" "47 \<notin> set dn"
    and "makedirs_error e (generated_dir e) = None"
    and "ft = chosen_format st" "bhc = bhc_di_ko st"
    and "fp = path_join (generated_dir e) (if ft = pdf_s then pn else dn)"
  shows "produce_file e w ft bhc (generated_dir e) pn dn =
     (case render_at e st fp of
        Inl x \<Rightarrow>
          (Inl x, \<lparr>dirs = insert (generated_dir e) (dirs w), files = files w, outbox = outbox w,
                   calls = calls w @ [Makedirs (generated_dir e), write_call st fp]\<rparr>)
      | Inr b \<Rightarrow>
          (Inr (if ft = pdf_s then pdf_s else docx_s, fp),
           \<lparr>dirs = insert (generated_dir e) (dirs w), files = (files w)(fp \<mapsto> b),
            outbox = outbox w,
            calls = calls w @ [Makedirs (generated_dir e), write_call st fp]\<rparr>))"
  using assms(6-8)
  by (simp add: produce_file_cases [OF assms(1-5)] Let_def render_at_def write_call_def
        split: sum.splits)

lemma node_guarded:
  assumes "action st \<in> {Some save_file_s, Some send_email_s}" "strip (bhc_di_ko st) = []"
  shows "chat_and_act_node e w st = (Inr (returned st none_s none_s [] [] msg_no_summary), w)"
proof -
  from assms(1) have "get_or (action st) none_s \<in> set [save_file_s, send_email_s]"
    unfolding guard_iff .
  with assms(2) show ?thesis
    by (simp add: chat_and_act_node_alt)
qed

lemma node_other:
  assumes "action st \<noteq> Some save_file_s" "action st \<noteq> Some send_email_s"
    and "makedirs_error e (generated_dir e) = None"
  shows "chat_and_act_node e w st =
     (Inr (returned st (get_or (action st) none_s) (chosen_format st) (get_or (email st) []) []
             (fst (composed e w st))),
      (log_call (Makedirs (generated_dir e)) (snd (composed e w st)))
        \<lparr>dirs := insert (generated_dir e) (dirs (snd (composed e w st)))\<rparr>)"
proof -
  obtain reply w1 where c: "composed e w st = (reply, w1)" by (cases "composed e w st")
  have a: "get_or (action st) none_s \<noteq> save_file_s" "get_or (action st) none_s \<noteq> send_email_s"
    using assms(1,2) by (simp_all add: action_word)
  then have g: "\<not> (get_or (action st) none_s \<in> set [save_file_s, send_email_s]
      \<and> strip (bhc_di_ko st) = [])"
    by simp
  show ?thesis
    unfolding chat_and_act_node_alt chosen_format_def
    by (simp only: g if_False c prod.case makedirs_ok [OF assms(3)] sum.case a fst_conv snd_conv)
qed

lemma node_save_file:
  assumes "action st = Some save_file_s" "strip (bhc_di_ko st) \<noteq> []"
    and "makedirs_error e (generated_dir e) = None"
    and "composed e w st = (reply, w1)"
  shows "chat_and_act_node e w st =
     (case render_at e st (save_artifact_path e st) of
        Inl x \<Rightarrow>
          (Inl x, \<lparr>dirs = insert (generated_dir e) (dirs w1), files = files w1,
                   outbox = outbox w1,
                   calls = calls w1 @ [Makedirs (generated_dir e), Makedirs (generated_dir e),
                     write_call st (save_artifact_path e st)]\<rparr>)
      | Inr b \<Rightarrow>
          (Inr (returned st save_file_s (if chosen_format st = pdf_s then pdf_s else docx_s)
                  (get_or (email st) []) (save_artifact_path e st)
                  (reply @ note_file_created @ basename (save_artifact_path e st) @ ascii '')'')),
           \<lparr>dirs = insert (generated_dir e) (dirs w1),
            files = (files w1)(save_artifact_path e st \<mapsto> b), outbox = outbox w1,
            calls = calls w1 @ [Makedirs (generated_dir e), Makedirs (generated_dir e),
              write_call st (save_artifact_path e st)]\<rparr>))"
proof -
  let ?w2 = "(log_call (Makedirs (generated_dir e)) w1)\<lparr>dirs := insert (generated_dir e) (dirs w1)\<rparr>"
  have a: "get_or (action st) none_s = save_file_s"
    using assms(1) by (simp add: get_or_words)
  have g: "\<not> (save_file_s \<in> set [save_file_s, send_email_s] \<and> strip (bhc_di_ko st) = [])"
    using assms(2) by simp
  note pf = produce_file_at [where st = st and w = "?w2", OF artifact_names(1-4) assms(3) refl refl refl,
      folded save_artifact_path_def, unfolded chosen_format_def]
  have "chat_and_act_node e w st =
      (case produce_file e ?w2 (lower (get_or (file_type st) none_s)) (bhc_di_ko st) (generated_dir e)
              (ascii ''discharge_summary.pdf'') (ascii ''discharge_summary.docx'') of
         (Inl x, w3) \<Rightarrow> (Inl x, w3)
       | (Inr (ft', fp), w3) \<Rightarrow>
           (Inr (returned st save_file_s ft' (get_or (email st) []) fp
                   (reply @ note_file_created @ basename fp @ ascii '')'')), w3))"
    unfolding chat_and_act_node_alt a
    by (simp only: g if_False assms(4) prod.case makedirs_ok [OF assms(3)] sum.case
          simp_thms if_True)
  then show ?thesis
    unfolding pf
    by (simp add: chosen_format_def log_call_def split: sum.splits)
qed

lemma node_send_email_cases:
  assumes "action st = Some send_email_s" "strip (bhc_di_ko st) \<noteq> []"
    and "makedirs_error e (generated_dir e) = None"
    and "composed e w st = (reply, w1)"
  shows "chat_and_act_node e w st =
     (case render_at e st (email_artifact_path e st) of
        Inl x \<Rightarrow>
          (Inl x, \<lparr>dirs = insert (generated_dir e) (dirs w1), files = files w1,
                   outbox = outbox w1,
                   calls = calls w1 @ [Makedirs (generated_dir e), Makedirs (generated_dir e),
                     write_call st (email_artifact_path e st)]\<rparr>)
      | Inr b \<Rightarrow>
          (let fp = email_artifact_path e st;
               ft' = (if chosen_format st = pdf_s then pdf_s else docx_s);
               em = get_or (email st) [];
               w3 = \<lparr>dirs = insert (generated_dir e) (dirs w1),
                     files = (files w1)(fp \<mapsto> b), outbox = outbox w1,
                     calls = calls w1 @ [Makedirs (generated_dir e), Makedirs (generated_dir e),
                       write_call st fp]\<rparr>
           in if em = [] then (Inr (returned st send_email_s ft' em fp (reply @ warn_no_address)), w3)
              else (Inr (returned st send_email_s ft' em fp (fst (dispatch e w3 em fp reply))),
                    snd (dispatch e w3 em fp reply))))"
proof -
  let ?w2 = "(log_call (Makedirs (generated_dir e)) w1)\<lparr>dirs := insert (generated_dir e) (dirs w1)\<rparr>"
  have a: "get_or (action st) none_s = send_email_s"
    using assms(1) by (simp add: get_or_words)
  have g: "\<not> (send_email_s \<in> set [save_file_s, send_email_s] \<and> strip (bhc_di_ko st) = [])"
    using assms(2) by simp
  note pf = produce_file_at [where st = st and w = "?w2", OF artifact_names(5-8) assms(3) refl refl refl,
      folded email_artifact_path_def, unfolded chosen_format_def]
  have "chat_and_act_node e w st =
      (case produce_file e ?w2 (lower (get_or (file_type st) none_s)) (bhc_di_ko st) (generated_dir e)
              (ascii ''discharge_summary_email.pdf'') (ascii ''discharge_summary_email.docx'') of
         (Inl x, w3) \<Rightarrow> (Inl x, w3)
       | (Inr (ft', fp), w3) \<Rightarrow>
           if get_or (email st) [] = [] then
             (Inr (returned st send_email_s ft' (get_or (email st) []) fp
                     (reply @ warn_no_address)), w3)
           else
             (case dispatch e w3 (get_or (email st) []) fp reply of
                (msg, w4) \<Rightarrow>
                  (Inr (returned st send_email_s ft' (get_or (email st) []) fp msg), w4)))"
    unfolding chat_and_act_node_alt a
    by (simp only: g if_False assms(4) prod.case makedirs_ok [OF assms(3)] sum.case
          words_distinct' simp_thms if_True)
  then show ?thesis
    unfolding pf
    by (simp add: chosen_format_def log_call_def Let_def case_prod_beta split: sum.splits)
qed

lemma populated_returned: "populated (returned st a f m p r)"
  by (simp add: populated_def returned_def)

lemma node_raises:
  assumes "\<not> (action st \<in> {Some save_file_s, Some send_email_s} \<and> strip (bhc_di_ko st) = [])"
    and "artifact_failure e st = Some x"
  shows "fst (chat_and_act_node e w st) = Inl x"
proof (cases "makedirs_error e (generated_dir e)")
  case (Some y)
  with assms(2) have "y = x" by (simp add: artifact_failure_def)
  with Some show ?thesis by (simp add: node_mkdir_fails [OF assms(1)])
next
  case None
  obtain reply w1 where c: "composed e w st = (reply, w1)" by (cases "composed e w st")
  consider (save) "action st = Some save_file_s" | (send) "action st = Some send_email_s"
    | (other) "action st \<noteq> Some save_file_s" "action st \<noteq> Some send_email_s"
    by blast
  then show ?thesis
  proof cases
    case save
    with assms(1) have s: "strip (bhc_di_ko st) \<noteq> []" by simp
    from assms(2) save None have "render_at e st (save_artifact_path e st) = Inl x"
      by (simp add: artifact_failure_def split: sum.splits)
    then show ?thesis by (simp add: node_save_file [OF save s None c])
  next
    case send
    with assms(1) have s: "strip (bhc_di_ko st) \<noteq> []" by simp
    from assms(2) send None have "render_at e st (email_artifact_path e st) = Inl x"
      by (simp add: artifact_failure_def words_distinct' split: sum.splits)
    then show ?thesis by (simp add: node_send_email_cases [OF send s None c])
  next
    case other
    with assms(2) None show ?thesis by (simp add: artifact_failure_def)
  qed
qed

lemma node_returns:
  assumes "(action st \<in> {Some save_file_s, Some send_email_s} \<and> strip (bhc_di_ko st) = [])
      \<or> artifact_failure e st = None"
  shows "\<exists>st'. fst (chat_and_act_node e w st) = Inr st' \<and> populated st'"
proof (cases "action st \<in> {Some save_file_s, Some send_email_s} \<and> strip (bhc_di_ko st) = []")
  case True
  then show ?thesis by (simp add: node_guarded populated_returned)
next
  case False
  with assms have af: "artifact_failure e st = None" by blast
  then have mk: "makedirs_error e (generated_dir e) = None"
    by (simp add: artifact_failure_def split: option.splits)
  obtain reply w1 where c: "composed e w st = (reply, w1)" by (cases "composed e w st")
  consider (save) "action st = Some save_file_s" | (send) "action st = Some send_email_s"
    | (other) "action st \<noteq> Some save_file_s" "action st \<noteq> Some send_email_s"
    by blast
  then show ?thesis
  proof cases
    case save
    with False have s: "strip (bhc_di_ko st) \<noteq> []" by simp
    from af save mk obtain b where "render_at e st (save_artifact_path e st) = Inr b"
      by (auto simp: artifact_failure_def split: sum.splits)
    then show ?thesis by (simp add: node_save_file [OF save s mk c] populated_returned)
  next
    case send
    with False have s: "strip (bhc_di_ko st) \<noteq> []" by simp
    from af send mk obtain b where "render_at e st (email_artifact_path e st) = Inr b"
      by (auto simp: artifact_failure_def words_distinct' split: sum.splits)
    then show ?thesis
      by (simp add: node_send_email_cases [OF send s mk c] populated_returned Let_def)
  next
    case other
    then show ?thesis by (simp add: node_other [OF other mk] populated_returned)
  qed
qed

section \<open>The exceptions that leave a run\<close>

text \<open>
  Claim C1, as the code has it. A run raises \<open>x\<close> exactly when the guard does not
  fire and \<open>x\<close> is the exception of creating the output directory or, that done, of
  writing the artifact of the classified action; in every other case, whatever the
  classifier, the reply generator, the file read and the SMTP session do, it returns a
  result with all five keys set. In particular it returns whenever the directory can be
  created and all artifacts can be written, an exception that leaves it is one of
  creating the directory or writing an artifact, and the exception of creating the
  directory leaves it whenever the guard does not fire.
\<close>

theorem run_raises_only_on_artifact_io:
  "(fst (run e w cmd summary_ko summary_en) = Inl x \<longleftrightarrow>
      \<not> guard_fires e w cmd summary_ko summary_en
      \<and> artifact_failure e (classified e w cmd summary_ko summary_en) = Some x)
   \<and> (guard_fires e w cmd summary_ko summary_en
        \<or> artifact_failure e (classified e w cmd summary_ko summary_en) = None \<longrightarrow>
      (\<exists>st. fst (run e w cmd summary_ko summary_en) = Inr st \<and> populated st))
   \<and> (artifact_io_ok e summary_ko \<longrightarrow>
      (\<exists>st. fst (run e w cmd summary_ko summary_en) = Inr st \<and> populated st))
   \<and> (fst (run e w cmd summary_ko summary_en) = Inl x \<longrightarrow> artifact_io_raises e summary_ko x)
   \<and> (\<not> guard_fires e w cmd summary_ko summary_en
        \<and> makedirs_error e (generated_dir e) = Some x
      \<longrightarrow> fst (run e w cmd summary_ko summary_en) = Inl x)"
proof -
  let ?st = "classified e w cmd summary_ko summary_en"
  let ?w0 = "after_classify e w cmd summary_ko summary_en"
  let ?g = "action ?st \<in> {Some save_file_s, Some send_email_s} \<and> strip (bhc_di_ko ?st) = []"
  have g: "guard_fires e w cmd summary_ko summary_en \<longleftrightarrow> ?g"
    by (simp add: guard_fires_def classified_inputs)
  have run: "run e w cmd summary_ko summary_en = chat_and_act_node e ?w0 ?st"
    by (rule run_classified)
  have ret: "\<exists>st. fst (run e w cmd summary_ko summary_en) = Inr st \<and> populated st"
    if "?g \<or> artifact_failure e ?st = None"
    unfolding run using that by (rule node_returns)
  have rai: "fst (run e w cmd summary_ko summary_en) = Inl y"
    if "\<not> ?g" "artifact_failure e ?st = Some y" for y
    unfolding run using that by (rule node_raises)
  have iff: "fst (run e w cmd summary_ko summary_en) = Inl x \<longleftrightarrow>
      \<not> ?g \<and> artifact_failure e ?st = Some x"
  proof
    assume l: "fst (run e w cmd summary_ko summary_en) = Inl x"
    show "\<not> ?g \<and> artifact_failure e ?st = Some x"
    proof (cases "?g \<or> artifact_failure e ?st = None")
      case True
      from ret [OF True] l show ?thesis by simp
    next
      case False
      then obtain y where y: "\<not> ?g" "artifact_failure e ?st = Some y" by auto
      from rai [OF y] l have "y = x" by simp
      with y show ?thesis by simp
    qed
  next
    assume "\<not> ?g \<and> artifact_failure e ?st = Some x"
    then show "fst (run e w cmd summary_ko summary_en) = Inl x" using rai by blast
  qed
  have ok: "\<exists>st. fst (run e w cmd summary_ko summary_en) = Inr st \<and> populated st"
    if "artifact_io_ok e summary_ko"
    using that chat_and_act_returns [of e ?st ?w0] by (simp add: run classified_inputs)
  have only: "artifact_io_raises e summary_ko x"
    if "fst (run e w cmd summary_ko summary_en) = Inl x"
    using that chat_and_act_raises [of e ?w0 ?st x] by (simp add: run classified_inputs)
  have mkf: "fst (run e w cmd summary_ko summary_en) = Inl x"
    if "\<not> guard_fires e w cmd summary_ko summary_en \<and> makedirs_error e (generated_dir e) = Some x"
    using that chat_and_act_mkdir_fails [of ?st e x ?w0] by (simp add: run g)
  from iff ret ok only mkf show ?thesis unfolding g by blast
qed

lemma classified_route_json:
  assumes "COLAB_API_BASE e \<noteq> []" "post_route_action e cmd ko = Inr (route_json a f m)"
    and "a \<in> {none_s, save_file_s, send_email_s}" "f \<in> {pdf_s, docx_s}"
  shows "classified e w cmd ko en =
     (initial_state cmd ko en)\<lparr>action := Some a, file_type := Some f, email := Some (strip m)\<rparr>"
proof -
  have keys: "ascii ''action'' \<noteq> ascii ''file_type''" "ascii ''action'' \<noteq> ascii ''email''"
    "ascii ''file_type'' \<noteq> ascii ''email''"
    by (simp_all add: ascii_def)
  have e0: "strip [] = []" by (simp add: strip_def)
  have "normalize_plan (route_json a f m) =
      Inr \<lparr>plan_action = a, plan_file_type = f, plan_email = strip m\<rparr>"
    using assms(3,4)
    by (auto simp: normalize_plan_def route_json_def dict_get_def or_empty_strip_def keys
          keys [THEN not_sym] e0 Let_def words_distinct words_distinct')
  then show ?thesis
    using assms(1,2)
    by (simp add: classified_def classify_node_def call_route_action_def initial_state_def
          Let_def)
qed

lemma reply_stable:
  assumes "COLAB_API_BASE e \<noteq> []"
    and "\<And>p. post_agent_chat e p = Inr (JObj [(ascii ''response'', JStr stable_ko)])"
  shows "fst (call_agent_chat_for_reply e w c b a f m) = stable_ko"
proof -
  have k: "keep_korean_lines stable_ko = stable_ko"
    by (simp add: filter_eval)
  have s: "strip stable_ko = stable_ko"
    by (simp add: strip_def stable_ko_def isspace_def)
  have n: "stable_ko \<noteq> []"
    by (simp add: stable_ko_def)
  show ?thesis
    using assms
    by (simp add: call_agent_chat_for_reply_def Let_def dict_get_def or_empty_strip_def n s k)
qed

lemma sample_words:
  "strip (ascii ''a@b.kr'') = ascii ''a@b.kr''" "ascii ''a@b.kr'' \<noteq> []"
  "strip stable_ko \<noteq> []" "strip [] = []"
  by (simp_all add: strip_def ascii_def isspace_def stable_ko_def)

lemma sample_paths:
  "cwd e = ascii ''/app'' \<Longrightarrow> generated_dir e = ascii ''/app/generated''"
  "path_join (ascii ''/app/generated'') (ascii ''discharge_summary_email.docx'')
     = ascii ''/app/generated/discharge_summary_email.docx''"
  "path_join (ascii ''/app/generated'') (ascii ''discharge_summary.pdf'')
     = ascii ''/app/generated/discharge_summary.pdf''"
  "basename (ascii ''/app/generated/discharge_summary_email.docx'')
     = ascii ''discharge_summary_email.docx''"
  by (simp_all add: generated_dir_def path_join_def basename_def ascii_def)

theorem run_raises_only_on_artifact_io_witness:
  "(\<exists>st. fst (run (sample_env (Inr (route_json save_file_s pdf_s [])) None None) world0
              (ascii ''make a pdf'') stable_ko []) = Inr st \<and> populated st)
   \<and> fst (run (sample_env (Inr (route_json save_file_s pdf_s []))
               (Some (Exn (ascii ''[Errno 13] Permission denied''))) None)
          world0 (ascii ''make a pdf'') stable_ko [])
     = Inl (Exn (ascii ''[Errno 13] Permission denied''))
   \<and> fst (run disk_full_env world0 (ascii ''make a pdf'') stable_ko [])
     = Inl (Exn (ascii ''[Errno 28] No space left on device''))
   \<and> artifact_io_raises disk_full_env stable_ko
       (Exn (ascii ''[Errno 28] No space left on device''))"
proof -
  let ?cmd = "ascii ''make a pdf''"
  let ?ok = "sample_env (Inr (route_json save_file_s pdf_s [])) None None"
  let ?px = "Exn (ascii ''[Errno 13] Permission denied'')"
  let ?dx = "Exn (ascii ''[Errno 28] No space left on device'')"
  let ?mk = "sample_env (Inr (route_json save_file_s pdf_s [])) (Some ?px) None"
  let ?st = "(initial_state ?cmd stable_ko [])\<lparr>action := Some save_file_s,
         file_type := Some pdf_s, email := Some []\<rparr>"
  have a: "artifact_io_ok ?ok stable_ko"
    by (simp add: artifact_io_ok_def sample_env_def)
  have g: "\<not> guard_fires e world0 ?cmd stable_ko []" for e
    by (simp add: guard_fires_def sample_words)
  have m: "makedirs_error ?mk (generated_dir ?mk) = Some ?px"
    by (simp add: sample_env_def)
  have base: "COLAB_API_BASE disk_full_env \<noteq> []"
    by (simp add: disk_full_env_def sample_env_def ascii_def)
  have c: "classified disk_full_env world0 ?cmd stable_ko [] = ?st"
    using classified_route_json [where e = disk_full_env and cmd = ?cmd and ko = stable_ko
        and a = save_file_s and f = pdf_s and m = "[]" and w = world0 and en = "[]", OF base]
    by (simp add: disk_full_env_def sample_env_def sample_words)
  have f: "artifact_failure disk_full_env (classified disk_full_env world0 ?cmd stable_ko [])
      = Some ?dx"
    unfolding c
    by (simp add: artifact_failure_def render_at_def chosen_format_def get_or_words
          words_distinct lower_words disk_full_env_def sample_env_def)
  have 1: "\<exists>st. fst (run ?ok world0 ?cmd stable_ko []) = Inr st \<and> populated st"
    using run_raises_only_on_artifact_io [of ?ok world0 ?cmd stable_ko "[]" ?px] a by blast
  have 2: "fst (run ?mk world0 ?cmd stable_ko []) = Inl ?px"
    using run_raises_only_on_artifact_io [of ?mk world0 ?cmd stable_ko "[]" ?px] g m by blast
  have 3: "fst (run disk_full_env world0 ?cmd stable_ko []) = Inl ?dx"
    using run_raises_only_on_artifact_io [of disk_full_env world0 ?cmd stable_ko "[]" ?dx] g f
    by blast
  have 4: "artifact_io_raises disk_full_env stable_ko ?dx"
    using run_raises_only_on_artifact_io [of disk_full_env world0 ?cmd stable_ko "[]" ?dx] 3
    by blast
  from 1 2 3 4 show ?thesis by (simp only: simp_thms)
qed

section \<open>A dispatch that fails\<close>

text \<open>
  Claim C8: when the classified action is \<open>send_email\<close> with a non-empty address
  \<open>em\<close>, the summary is not blank, the directory is created, the artifact is written
  with bytes \<open>b\<close>, and the dispatch fails with the exception \<open>x\<close> (of reading the
  file back, of an unset or empty SMTP variable, or of the SMTP login or transport), the
  run returns, and its result and world are these: the action, format and address are
  the classified ones, the path is that of the e-mail artifact, the message is the
  composed reply followed by the warning with the text of \<open>x\<close>; the artifact is in
  place with the bytes written, no mail is in the outbox, and the calls made are the two
  remote requests, the two directory creations, the writing and reading of the artifact
  and, unless reading failed, the one attempt to send. Hence all five keys of the result
  are set, its path names the artifact, and the artifact is retained.
\<close>

theorem dispatch_failure_is_warning:
  assumes "action (classified e w cmd summary_ko summary_en) = Some send_email_s"
    and "email (classified e w cmd summary_ko summary_en) = Some em" and "em \<noteq> []"
    and "strip summary_ko \<noteq> []"
    and "makedirs_error e (generated_dir e) = None"
    and "render_at e (classified e w cmd summary_ko summary_en)
           (email_artifact_path e (classified e w cmd summary_ko summary_en)) = Inr b"
    and "dispatch_error e em
           (email_artifact_path e (classified e w cmd summary_ko summary_en)) b = Some x"
  shows "(let st = classified e w cmd summary_ko summary_en;
        fp = email_artifact_path e st;
        ft = chosen_format st;
        result = returned (initial_state cmd summary_ko summary_en) send_email_s
                   (if ft = pdf_s then pdf_s else docx_s) em fp
                   (fst (call_agent_chat_for_reply e w cmd summary_ko send_email_s ft em)
                      @ warn_send_error @ exn_text x @ ascii '')'');
        w' = \<lparr>dirs = insert (generated_dir e) (dirs w),
               files = (files w)(fp \<mapsto> b),
               outbox = outbox w,
               calls = calls w @ [RouteAction cmd summary_ko,
                   AgentChat (build_prompt cmd summary_ko send_email_s ft em),
                   Makedirs (generated_dir e), Makedirs (generated_dir e), write_call st fp,
                   ReadFile fp]
                 @ (if read_error e fp = None then [SendEmail em] else [])\<rparr>
    in run e w cmd summary_ko summary_en = (Inr result, w')
       \<and> populated result \<and> file_path result = Some fp
       \<and> files w' fp = Some b \<and> outbox w' = outbox w)"
proof -
  let ?st = "classified e w cmd summary_ko summary_en"
  let ?w0 = "log_call (RouteAction cmd summary_ko) w"
  let ?fp = "email_artifact_path e ?st"
  let ?ft = "chosen_format ?st"
  let ?prompt = "build_prompt cmd summary_ko send_email_s ?ft em"
  let ?reply = "fst (call_agent_chat_for_reply e w cmd summary_ko send_email_s ?ft em)"
  let ?w1 = "log_call (AgentChat ?prompt) ?w0"
  from assms(1) have base: "COLAB_API_BASE e \<noteq> []"
    by (intro classified_base [of e w cmd summary_ko summary_en]) (simp add: words_distinct')
  then have w0: "after_classify e w cmd summary_ko summary_en = ?w0"
    by (rule after_classify_world)
  have em: "get_or (email ?st) [] = em"
    using assms(2,3) by (simp add: get_or_words)
  have s: "strip (bhc_di_ko ?st) \<noteq> []"
    using assms(4) by (simp add: classified_inputs)
  have comp: "composed e ?w0 ?st =
      call_agent_chat_for_reply e ?w0 cmd summary_ko send_email_s ?ft em"
    by (simp add: composed_def classified_inputs assms(1) em get_or_words chosen_format_def)
  have c: "composed e ?w0 ?st = (?reply, ?w1)"
  proof (rule prod_eqI)
    show "fst (composed e ?w0 ?st) = fst (?reply, ?w1)"
      unfolding comp fst_conv by (rule reply_any_world)
    show "snd (composed e ?w0 ?st) = snd (?reply, ?w1)"
      unfolding comp using base
      by (simp add: call_agent_chat_for_reply_def Let_def split: sum.splits)
  qed
  let ?w3 = "\<lparr>dirs = insert (generated_dir e) (dirs ?w1), files = (files ?w1)(?fp \<mapsto> b),
      outbox = outbox ?w1,
      calls = calls ?w1 @ [Makedirs (generated_dir e), Makedirs (generated_dir e),
        write_call ?st ?fp]\<rparr>"
  have f3: "files ?w3 ?fp = Some b" by simp
  note d = dispatch_failed [OF f3 assms(7), of ?reply]
  have node: "chat_and_act_node e ?w0 ?st =
      (Inr (returned ?st send_email_s (if ?ft = pdf_s then pdf_s else docx_s) em ?fp
              (fst (dispatch e ?w3 em ?fp ?reply))),
       snd (dispatch e ?w3 em ?fp ?reply))"
    unfolding node_send_email_cases [OF assms(1) s assms(5) c]
    by (simp only: assms(6) sum.case Let_def em assms(3) if_False)
  have "run e w cmd summary_ko summary_en = chat_and_act_node e ?w0 ?st"
    by (simp add: run_classified w0)
  then have "run e w cmd summary_ko summary_en =
     (Inr (returned (initial_state cmd summary_ko summary_en) send_email_s
             (if ?ft = pdf_s then pdf_s else docx_s) em ?fp
             (?reply @ warn_send_error @ exn_text x @ ascii '')'')),
      \<lparr>dirs = insert (generated_dir e) (dirs w),
       files = (files w)(?fp \<mapsto> b),
       outbox = outbox w,
       calls = calls w @ [RouteAction cmd summary_ko, AgentChat ?prompt,
           Makedirs (generated_dir e), Makedirs (generated_dir e), write_call ?st ?fp,
           ReadFile ?fp]
         @ (if read_error e ?fp = None then [SendEmail em] else [])\<rparr>)"
    unfolding node d
    by (simp add: returned_classified log_call_def)
  then show ?thesis
    unfolding Let_def
    by (simp add: populated_returned) (simp add: returned_def)
qed

theorem dispatch_failure_is_warning_witness:
  "run (sample_env (Inr (route_json send_email_s docx_s (ascii ''a@b.kr''))) None None) world0
       (ascii ''mail it'') stable_ko [] =
     (Inr (returned (initial_state (ascii ''mail it'') stable_ko []) send_email_s docx_s
             (ascii ''a@b.kr'') (ascii ''/app/generated/discharge_summary_email.docx'')
             (stable_ko @ warn_send_error @ msg_smtp_env @ ascii '')'')),
      \<lparr>dirs = {ascii ''/app/generated''},
       files = [ascii ''/app/generated/discharge_summary_email.docx'' \<mapsto> [80, 75]],
       outbox = [],
       calls = [RouteAction (ascii ''mail it'') stable_ko,
         AgentChat (build_prompt (ascii ''mail it'') stable_ko send_email_s docx_s
           (ascii ''a@b.kr'')),
         Makedirs (ascii ''/app/generated''), Makedirs (ascii ''/app/generated''),
         WriteDocx (ascii ''/app/generated/discharge_summary_email.docx''),
         ReadFile (ascii ''/app/generated/discharge_summary_email.docx''),
         SendEmail (ascii ''a@b.kr'')]\<rparr>)
   \<and> run auth_failure_env world0 (ascii ''mail it'') stable_ko [] =
     (Inr (returned (initial_state (ascii ''mail it'') stable_ko []) send_email_s docx_s
             (ascii ''a@b.kr'') (ascii ''/app/generated/discharge_summary_email.docx'')
             (stable_ko @ warn_send_error @ ascii ''(535, Username and Password not accepted)''
                @ ascii '')'')),
      \<lparr>dirs = {ascii ''/app/generated''},
       files = [ascii ''/app/generated/discharge_summary_email.docx'' \<mapsto> [80, 75]],
       outbox = [],
       calls = [RouteAction (ascii ''mail it'') stable_ko,
         AgentChat (build_prompt (ascii ''mail it'') stable_ko send_email_s docx_s
           (ascii ''a@b.kr'')),
         Makedirs (ascii ''/app/generated''), Makedirs (ascii ''/app/generated''),
         WriteDocx (ascii ''/app/generated/discharge_summary_email.docx''),
         ReadFile (ascii ''/app/generated/discharge_summary_email.docx''),
         SendEmail (ascii ''a@b.kr'')]\<rparr>)"
proof -
  let ?cmd = "ascii ''mail it''"
  let ?fp = "ascii ''/app/generated/discharge_summary_email.docx''"
  let ?st = "(initial_state ?cmd stable_ko [])\<lparr>action := Some send_email_s,
         file_type := Some docx_s, email := Some (ascii ''a@b.kr'')\<rparr>"
  have fmt: "chosen_format ?st = docx_s"
    by (simp add: chosen_format_def get_or_words words_distinct lower_words)
  have np: "docx_s \<noteq> pdf_s" by (simp add: words_distinct')
  have base: "ascii ''http://colab'' \<noteq> []" by (simp add: ascii_def)
  have one: "run e world0 ?cmd stable_ko [] =
     (Inr (returned (initial_state ?cmd stable_ko []) send_email_s docx_s
             (ascii ''a@b.kr'') ?fp (stable_ko @ warn_send_error @ exn_text x @ ascii '')'')),
      \<lparr>dirs = {ascii ''/app/generated''}, files = [?fp \<mapsto> [80, 75]], outbox = [],
       calls = [RouteAction ?cmd stable_ko,
         AgentChat (build_prompt ?cmd stable_ko send_email_s docx_s (ascii ''a@b.kr'')),
         Makedirs (ascii ''/app/generated''), Makedirs (ascii ''/app/generated''),
         WriteDocx ?fp, ReadFile ?fp, SendEmail (ascii ''a@b.kr'')]\<rparr>)"
    if e: "COLAB_API_BASE e = ascii ''http://colab''" "cwd e = ascii ''/app''"
      "post_route_action e ?cmd stable_ko
         = Inr (route_json send_email_s docx_s (ascii ''a@b.kr''))"
      "\<And>p. post_agent_chat e p = Inr (JObj [(ascii ''response'', JStr stable_ko)])"
      "makedirs_error e (generated_dir e) = None"
      "\<And>t p. render_docx e t p = Inr [80, 75]"
      "read_error e ?fp = None"
      and x: "dispatch_error e (ascii ''a@b.kr'') ?fp [80, 75] = Some x"
    for e x
  proof -
    have b: "COLAB_API_BASE e \<noteq> []" using e(1) base by simp
    have c: "classified e world0 ?cmd stable_ko [] = ?st"
      using classified_route_json [where w = world0 and en = "[]", OF b e(3)]
      by (simp add: sample_words)
    have p: "email_artifact_path e ?st = ?fp"
      by (simp add: email_artifact_path_def fmt np sample_paths e(2))
    have h1: "action (classified e world0 ?cmd stable_ko []) = Some send_email_s"
      and h2: "email (classified e world0 ?cmd stable_ko []) = Some (ascii ''a@b.kr'')"
      by (simp_all add: c)
    have h6: "render_at e (classified e world0 ?cmd stable_ko [])
        (email_artifact_path e (classified e world0 ?cmd stable_ko [])) = Inr [80, 75]"
      unfolding c p by (simp add: render_at_def fmt np e(6))
    have h7: "dispatch_error e (ascii ''a@b.kr'')
        (email_artifact_path e (classified e world0 ?cmd stable_ko [])) [80, 75] = Some x"
      unfolding c p by (rule x)
    have r: "fst (call_agent_chat_for_reply e w ?cmd stable_ko send_email_s docx_s
        (ascii ''a@b.kr'')) = stable_ko" for w
      by (rule reply_stable [OF b e(4)])
    show ?thesis
      using dispatch_failure_is_warning [OF h1 h2 sample_words(2) sample_words(3) e(5) h6 h7,
          unfolded Let_def, THEN conjunct1]
      unfolding c p fmt
      by (simp add: np r e(7) write_call_def fmt sample_paths e(2) world0_def)
  qed
  let ?e1 = "sample_env (Inr (route_json send_email_s docx_s (ascii ''a@b.kr''))) None None"
  have d1: "dispatch_error ?e1 (ascii ''a@b.kr'') ?fp [80, 75] = Some (Exn msg_smtp_env)"
    by (simp add: dispatch_error_def sample_env_def unset_def)
  have d2: "dispatch_error auth_failure_env (ascii ''a@b.kr'') ?fp [80, 75]
      = Some (Exn (ascii ''(535, Username and Password not accepted)''))"
    by (simp add: dispatch_error_def auth_failure_env_def sample_env_def unset_def ascii_def)
  have r1: "run ?e1 world0 ?cmd stable_ko [] = 
     (Inr (returned (initial_state ?cmd stable_ko []) send_email_s docx_s
             (ascii ''a@b.kr'') ?fp
             (stable_ko @ warn_send_error @ exn_text (Exn msg_smtp_env) @ ascii '')'')),
      \<lparr>dirs = {ascii ''/app/generated''}, files = [?fp \<mapsto> [80, 75]], outbox = [],
       calls = [RouteAction ?cmd stable_ko,
         AgentChat (build_prompt ?cmd stable_ko send_email_s docx_s (ascii ''a@b.kr'')),
         Makedirs (ascii ''/app/generated''), Makedirs (ascii ''/app/generated''),
         WriteDocx ?fp, ReadFile ?fp, SendEmail (ascii ''a@b.kr'')]\<rparr>)"
    by (rule one [OF _ _ _ _ _ _ _ d1]) (simp_all add: sample_env_def)
  have r2: "run auth_failure_env world0 ?cmd stable_ko [] = 
     (Inr (returned (initial_state ?cmd stable_ko []) send_email_s docx_s
             (ascii ''a@b.kr'') ?fp
             (stable_ko @ warn_send_error
                @ exn_text (Exn (ascii ''(535, Username and Password not accepted)''))
                @ ascii '')'')),
      \<lparr>dirs = {ascii ''/app/generated''}, files = [?fp \<mapsto> [80, 75]], outbox = [],
       calls = [RouteAction ?cmd stable_ko,
         AgentChat (build_prompt ?cmd stable_ko send_email_s docx_s (ascii ''a@b.kr'')),
         Makedirs (ascii ''/app/generated''), Makedirs (ascii ''/app/generated''),
         WriteDocx ?fp, ReadFile ?fp, SendEmail (ascii ''a@b.kr'')]\<rparr>)"
    by (rule one [OF _ _ _ _ _ _ _ d2]) (simp_all add: auth_failure_env_def sample_env_def)
  show ?thesis
    using r1 r2 by (simp only: exn_text.simps simp_thms)
qed


end
